theory Spec2Isabelle
  imports Complex_Main
begin

section \<open>JavaScript numbers\<close>

text \<open>
  A TypeScript \<^verbatim>\<open>number\<close> is an IEEE 754 double. Here it is a \<open>jsnum\<close>: a real number
  that is a double, or one of the three special values. Every arithmetic operation computes
  the exact result in the reals and rounds it to the nearest double, ties to the even
  significand, with overflow to an infinity and gradual underflow; a decimal literal of the
  source is the double nearest to it. Division by zero does not raise: it yields \<open>NaN\<close> or an
  infinity, and these values then flow through the arithmetic.

  One thing is left out: zero has no sign. A non-zero number divided by zero takes its sign
  from the numerator, as with \<open>+0\<close>; no statement below depends on which infinity such a
  division returns.
\<close>

subsection \<open>Rounding to a double\<close>

text \<open>\<open>pow2 k\<close> is 2 to the power \<open>k\<close>, for an integer \<open>k\<close>.\<close>

definition pow2 :: "int \<Rightarrow> real" where
  "pow2 k = (if 0 \<le> k then 2 ^ nat k else 1 / 2 ^ nat (- k))"

text \<open>
  The binary exponent of a positive real. For \<open>x\<close> from 1 on, \<open>expUp\<close> searches upwards
  the first \<open>n\<close> with \<open>x < 2 ^ (n + 1)\<close>; for \<open>x\<close> below 1, \<open>expDown\<close> searches the first
  \<open>n\<close> with \<open>1 \<le> x * 2 ^ n\<close>, and the exponent is \<open>- n\<close>. Both stop at the ends of the
  range of doubles.
\<close>

function expUp :: "nat \<Rightarrow> real \<Rightarrow> nat" where
  "expUp n x = (if x < 2 ^ (n + 1) \<or> 1024 \<le> n then n else expUp (n + 1) x)"
  by pat_completeness auto

termination
  by (relation "measure (\<lambda>(n, x). 1024 - n)") auto

function expDown :: "nat \<Rightarrow> real \<Rightarrow> nat" where
  "expDown n x = (if 1 \<le> x * 2 ^ n \<or> 1075 \<le> n then n else expDown (n + 1) x)"
  by pat_completeness auto

termination
  by (relation "measure (\<lambda>(n, x). 1075 - n)") auto

declare expUp.simps [simp del] expDown.simps [simp del]

definition exponentOf :: "real \<Rightarrow> int" where
  "exponentOf x = (if 1 \<le> x then int (expUp 0 x) else - int (expDown 1 x))"

text \<open>The exponent that fixes the spacing of the doubles around \<open>a\<close>: subnormal numbers
  share the least exponent.\<close>

definition clampedExponent :: "real \<Rightarrow> int" where
  "clampedExponent a = max (exponentOf a) (- 1022)"

text \<open>The nearest integer, a tie going to the even one.\<close>

definition roundHalfEven :: "real \<Rightarrow> int" where
  "roundHalfEven x =
     (let f = \<lfloor>x\<rfloor>; d = x - of_int f
      in if d < 1 / 2 then f else if 1 / 2 < d then f + 1 else if even f then f else f + 1)"

text \<open>A positive real rounded to 53 significant bits, and the rounding of any real to a
  double: what reaches \<open>pow2 1024\<close> is an infinity.\<close>

definition roundPos :: "real \<Rightarrow> real" where
  "roundPos a =
     (let q = clampedExponent a - 52
      in of_int (roundHalfEven (a / pow2 q)) * pow2 q)"

datatype jsnum = Fin real | PInf | NInf | NaN

definition round64 :: "real \<Rightarrow> jsnum" where
  "round64 x =
     (if x = 0 then Fin 0
      else if 0 < x then (if pow2 1024 \<le> roundPos x then PInf else Fin (roundPos x))
      else (if pow2 1024 \<le> roundPos (- x) then NInf else Fin (- roundPos (- x))))"

text \<open>A decimal literal of the source, such as \<^verbatim>\<open>0.3\<close>.\<close>

definition literal :: "real \<Rightarrow> jsnum" where
  "literal r = round64 r"

text \<open>The values of the type: a finite one is a real that rounding leaves as it is.\<close>

fun isDouble :: "jsnum \<Rightarrow> bool" where
  "isDouble (Fin a) = (round64 a = Fin a)"
| "isDouble x = True"

subsection \<open>Arithmetic\<close>

instantiation jsnum :: "{plus, minus, times, inverse}"
begin

fun plus_jsnum :: "jsnum \<Rightarrow> jsnum \<Rightarrow> jsnum" where
  "Fin a + Fin b = round64 (a + b)"
| "NaN + _ = NaN"
| "_ + NaN = NaN"
| "PInf + NInf = NaN"
| "NInf + PInf = NaN"
| "PInf + _ = PInf"
| "_ + PInf = PInf"
| "NInf + _ = NInf"
| "_ + NInf = NInf"

fun minus_jsnum :: "jsnum \<Rightarrow> jsnum \<Rightarrow> jsnum" where
  "Fin a - Fin b = round64 (a - b)"
| "NaN - _ = NaN"
| "_ - NaN = NaN"
| "PInf - PInf = NaN"
| "NInf - NInf = NaN"
| "PInf - _ = PInf"
| "_ - NInf = PInf"
| "NInf - _ = NInf"
| "_ - PInf = NInf"

fun times_jsnum :: "jsnum \<Rightarrow> jsnum \<Rightarrow> jsnum" where
  "Fin a * Fin b = round64 (a * b)"
| "NaN * _ = NaN"
| "_ * NaN = NaN"
| "Fin a * PInf = (if a = 0 then NaN else if 0 < a then PInf else NInf)"
| "Fin a * NInf = (if a = 0 then NaN else if 0 < a then NInf else PInf)"
| "PInf * Fin b = (if b = 0 then NaN else if 0 < b then PInf else NInf)"
| "NInf * Fin b = (if b = 0 then NaN else if 0 < b then NInf else PInf)"
| "PInf * PInf = PInf"
| "PInf * NInf = NInf"
| "NInf * PInf = NInf"
| "NInf * NInf = PInf"

fun divide_jsnum :: "jsnum \<Rightarrow> jsnum \<Rightarrow> jsnum" where
  "divide_jsnum (Fin a) (Fin b) =
     (if b = 0 then (if a = 0 then NaN else if 0 < a then PInf else NInf)
      else round64 (a / b))"
| "divide_jsnum NaN _ = NaN"
| "divide_jsnum _ NaN = NaN"
| "divide_jsnum (Fin a) PInf = Fin 0"
| "divide_jsnum (Fin a) NInf = Fin 0"
| "divide_jsnum PInf (Fin b) = (if 0 \<le> b then PInf else NInf)"
| "divide_jsnum NInf (Fin b) = (if 0 \<le> b then NInf else PInf)"
| "divide_jsnum PInf PInf = NaN"
| "divide_jsnum PInf NInf = NaN"
| "divide_jsnum NInf PInf = NaN"
| "divide_jsnum NInf NInf = NaN"

definition inverse_jsnum :: "jsnum \<Rightarrow> jsnum" where
  "inverse_jsnum (x::jsnum) = divide (Fin 1) x"

instance ..

end

fun isFin :: "jsnum \<Rightarrow> bool" where
  "isFin (Fin a) = True"
| "isFin x = False"

text \<open>The comparison \<^verbatim>\<open>x <= y\<close>: false as soon as one side is \<open>NaN\<close>.\<close>

fun jle :: "jsnum \<Rightarrow> jsnum \<Rightarrow> bool" where
  "jle (Fin a) (Fin b) = (a \<le> b)"
| "jle NaN y = False"
| "jle x NaN = False"
| "jle NInf y = True"
| "jle x PInf = True"
| "jle PInf y = False"
| "jle x NInf = False"

text \<open>
  \<^verbatim>\<open>Math.sqrt\<close> is the IEEE operation, correctly rounded. \<^verbatim>\<open>Math.round\<close> returns the
  integer \<open>\<lfloor>x + 1 / 2\<rfloor>\<close>, which is a double whenever \<open>x\<close> is.
  \<^verbatim>\<open>Math.max\<close> of two numbers.
\<close>

fun jsqrt :: "jsnum \<Rightarrow> jsnum" where
  "jsqrt (Fin a) = (if a < 0 then NaN else round64 (sqrt a))"
| "jsqrt PInf = PInf"
| "jsqrt NInf = NaN"
| "jsqrt NaN = NaN"

fun jround :: "jsnum \<Rightarrow> jsnum" where
  "jround (Fin a) = Fin (of_int \<lfloor>a + 1 / 2\<rfloor>)"
| "jround x = x"

fun jmax :: "jsnum \<Rightarrow> jsnum \<Rightarrow> jsnum" where
  "jmax (Fin a) (Fin b) = Fin (max a b)"
| "jmax NaN y = NaN"
| "jmax x NaN = NaN"
| "jmax PInf y = PInf"
| "jmax x PInf = PInf"
| "jmax NInf y = y"
| "jmax x NInf = x"

text \<open>
  Truthiness. In \<^verbatim>\<open>x || d\<close> a number counts as missing when it is \<open>0\<close> or \<open>NaN\<close>, and
  so does \<^verbatim>\<open>undefined\<close> (here \<open>None\<close>): the result is then \<open>d\<close>.
\<close>

definition falsy :: "jsnum \<Rightarrow> bool" where
  "falsy x = (x = Fin 0 \<or> x = NaN)"

definition orElse :: "jsnum option \<Rightarrow> jsnum \<Rightarrow> jsnum" where
  "orElse x d = (case x of None \<Rightarrow> d | Some v \<Rightarrow> if falsy v then d else v)"

text \<open>
  Array reads. \<^verbatim>\<open>xs[i]\<close> out of range is \<^verbatim>\<open>undefined\<close>; used in arithmetic,
  \<^verbatim>\<open>undefined\<close> becomes \<open>NaN\<close>.
\<close>

definition nthOpt :: "'a list \<Rightarrow> nat \<Rightarrow> 'a option" where
  "nthOpt xs i = (if i < length xs then Some (xs ! i) else None)"

definition numAt :: "jsnum list \<Rightarrow> nat \<Rightarrow> jsnum" where
  "numAt xs i = (case nthOpt xs i of None \<Rightarrow> NaN | Some v \<Rightarrow> v)"

text \<open>\<^verbatim>\<open>xs.map((x, i) => ...)\<close> and \<^verbatim>\<open>xs.reduce((s, x, i) => ..., 0)\<close> see the index.\<close>

definition indexed :: "'a list \<Rightarrow> (nat \<times> 'a) list" where
  "indexed xs = zip [0..<length xs] xs"

text \<open>\<^verbatim>\<open>xs.reduce((sum, x) => sum + x, 0)\<close>\<close>

definition sumNums :: "jsnum list \<Rightarrow> jsnum" where
  "sumNums xs = foldl (\<lambda>sum x. sum + x) (Fin 0) xs"

text \<open>\<^verbatim>\<open>xs.slice(-k)\<close>: the last \<open>k\<close> elements, all of them when there are fewer.\<close>

definition sliceLast :: "nat \<Rightarrow> 'a list \<Rightarrow> 'a list" where
  "sliceLast k xs = drop (length xs - k) xs"

subsection \<open>What the engine decides\<close>

text \<open>
  Three things are left to the JavaScript engine and are parameters of the model.
  \<^verbatim>\<open>Math.random()\<close> is a stream: the \<open>k\<close>-th call of a run returns \<open>mathRandom k\<close>.
  \<^verbatim>\<open>Math.pow\<close> of a finite non-zero base is an approximation that the language leaves to
  the implementation: \<open>mathPow\<close>. A call takes a limited number of arguments, so
  \<^verbatim>\<open>Math.max(...xs)\<close> throws a \<^verbatim>\<open>RangeError\<close> on a long array; the limit depends on the
  engine and its stack, the least one among the engines in use is 65535, and
  \<open>extraArguments\<close> is what an engine accepts beyond that.
\<close>

record Engine =
  mathRandom :: "nat \<Rightarrow> real"
  mathPow :: "real \<Rightarrow> nat \<Rightarrow> jsnum"
  extraArguments :: nat

definition argumentLimit :: "Engine \<Rightarrow> nat" where
  "argumentLimit E = 65535 + extraArguments E"

text \<open>\<^verbatim>\<open>Math.pow(x, n)\<close> for an exponent that is a natural number: the cases the
  language fixes, and the engine's value otherwise.\<close>

fun jpow :: "Engine \<Rightarrow> jsnum \<Rightarrow> nat \<Rightarrow> jsnum" where
  "jpow E x 0 = Fin 1"
| "jpow E NaN (Suc n) = NaN"
| "jpow E PInf (Suc n) = PInf"
| "jpow E NInf (Suc n) = (if even (Suc n) then PInf else NInf)"
| "jpow E (Fin a) (Suc n) = (if a = 0 then Fin 0 else mathPow E a (Suc n))"

section \<open>Data model\<close>

text \<open>
  \<^verbatim>\<open>CropPrice\<close> of the types module. \<open>year\<close> and \<open>month\<close> are integers; \<open>None\<close> is the
  \<open>NaN\<close> that \<^verbatim>\<open>getFullYear()\<close> and \<^verbatim>\<open>getMonth()\<close> return on an invalid date. Optional
  fields are options. The interval is the pair (lower, upper).
\<close>

record CropPrice =
  id' :: string
  crop :: string
  year :: "int option"
  month :: "int option"
  price :: jsnum
  unit' :: string
  source :: string
  region :: "string option"
  quality :: "string option"
  isPrediction :: "bool option"
  confidenceInterval :: "(jsnum \<times> jsnum) option"

record PredictionModel =
  name :: string
  accuracy :: jsnum
  description :: string

record ForecastMetadata =
  methodsUsed :: "string list"
  dataPoints :: nat
  forecastHorizon :: int

record ForecastResult =
  predictions :: "CropPrice list"
  confidence :: jsnum
  model :: string
  accuracy :: jsnum
  metadata :: ForecastMetadata

record ValidationResult =
  isValid :: bool
  message :: string
  recommendations :: "string list option"

record LinearFit =
  slope :: jsnum
  intercept :: jsnum
  r2 :: jsnum

record ConfidenceIntervals =
  lower :: "jsnum list"
  upper :: "jsnum list"

text \<open>What a \<^verbatim>\<open>throw\<close> carries: an \<^verbatim>\<open>Error\<close> with its message, or a
  \<^verbatim>\<open>RangeError\<close> of the engine.\<close>

datatype error = Error string | RangeError string

text \<open>The \<^verbatim>\<open>modelType\<close> argument; \<open>Unlisted\<close> is any value that reaches the
  \<^verbatim>\<open>default\<close> branch of the switch.\<close>

datatype modelType = Ensemble | Seasonal | Linear | Unlisted


section \<open>Dates\<close>

text \<open>
  The code only builds dates on the first day of a month, in local time, and moves them by
  whole months, so a valid \<^verbatim>\<open>Date\<close> is the number of its month,
  \<open>12 * year + monthIndex\<close>, and \<open>None\<close> is the invalid date. \<^verbatim>\<open>getTime()\<close> is monotone
  in that number. A \<^verbatim>\<open>Date\<close> holds at most 8.64e15 milliseconds either side of 1970: in
  every time zone the first valid month is May of the year -271821 and the last one
  September of the year 275760. Outside, the date is invalid.
\<close>

type_synonym jsdate = "int option"

definition validMonth :: "int \<Rightarrow> bool" where
  "validMonth k = (- 271821 * 12 + 4 \<le> k \<and> k \<le> 275760 * 12 + 8)"

definition timeClip :: "int \<Rightarrow> jsdate" where
  "timeClip k = (if validMonth k then Some k else None)"

text \<open>\<^verbatim>\<open>new Date(year, monthIndex)\<close>: months outside 0..11 carry into the year, and a
  year from 0 to 99 means 1900 + year.\<close>

definition newDate :: "int option \<Rightarrow> int option \<Rightarrow> jsdate" where
  "newDate y m =
     (case (y, m) of
        (Some a, Some b) \<Rightarrow> timeClip ((if 0 \<le> a \<and> a \<le> 99 then 1900 + a else a) * 12 + b)
      | _ \<Rightarrow> None)"

text \<open>\<^verbatim>\<open>Math.max\<close> of times: of nothing it is \<open>-Infinity\<close> and of a list with a \<open>NaN\<close>
  it is \<open>NaN\<close>; \<^verbatim>\<open>new Date\<close> of either is the invalid date.\<close>

fun maxTime :: "jsdate list \<Rightarrow> jsdate" where
  "maxTime [] = None"
| "maxTime [d] = d"
| "maxTime (d # ds) =
     (case (d, maxTime ds) of (Some a, Some b) \<Rightarrow> Some (max a b) | _ \<Rightarrow> None)"

text \<open>\<^verbatim>\<open>new Date(Math.max(...times))\<close>: the spread passes one argument for each element,
  and the call throws when they are more than the engine takes (the message is that of
  V8).\<close>

definition maxDate :: "Engine \<Rightarrow> jsdate list \<Rightarrow> error + jsdate" where
  "maxDate E ts =
     (if argumentLimit E < length ts then Inl (RangeError ''Maximum call stack size exceeded'')
      else Inr (maxTime ts))"

definition lastDateOf :: "Engine \<Rightarrow> CropPrice list \<Rightarrow> error + jsdate" where
  "lastDateOf E historicalData =
     maxDate E (map (\<lambda>item. newDate (year item) (map_option (\<lambda>m. m - 1) (month item)))
                    historicalData)"

text \<open>\<^verbatim>\<open>d.setMonth(d.getMonth() + i)\<close>, \<^verbatim>\<open>getFullYear()\<close> and \<^verbatim>\<open>getMonth() + 1\<close>.\<close>

definition plusMonths :: "jsdate \<Rightarrow> int \<Rightarrow> jsdate" where
  "plusMonths d i = (case d of None \<Rightarrow> None | Some k \<Rightarrow> timeClip (k + i))"

definition getFullYear :: "jsdate \<Rightarrow> int option" where
  "getFullYear d = map_option (\<lambda>k. k div 12) d"

definition getMonth1 :: "jsdate \<Rightarrow> int option" where
  "getMonth1 d = map_option (\<lambda>k. k mod 12 + 1) d"

section \<open>Strings\<close>

text \<open>Numbers inside a template literal, and the \<^verbatim>\<open>?.\<close> and \<^verbatim>\<open>||\<close> idioms on
  strings: a missing value prints as \<^verbatim>\<open>undefined\<close>, and \<^verbatim>\<open>s || d\<close> is \<open>d\<close> when \<open>s\<close>
  is missing or empty.\<close>

fun showNat :: "nat \<Rightarrow> string" where
  "showNat n =
     (if n < 10 then [''0123456789'' ! n]
      else showNat (n div 10) @ [''0123456789'' ! (n mod 10)])"

declare showNat.simps [simp del]

definition showNum :: "int option \<Rightarrow> string" where
  "showNum x =
     (case x of
        None \<Rightarrow> ''NaN''
      | Some k \<Rightarrow> if k < 0 then ''-'' @ showNat (nat (- k)) else showNat (nat k))"

definition templ :: "string option \<Rightarrow> string" where
  "templ s = (case s of None \<Rightarrow> ''undefined'' | Some v \<Rightarrow> v)"

definition strOr :: "string option \<Rightarrow> string \<Rightarrow> string" where
  "strOr s d = (case s of None \<Rightarrow> d | Some v \<Rightarrow> if v = [] then d else v)"

definition first :: "CropPrice list \<Rightarrow> CropPrice option" where
  "first xs = (case xs of [] \<Rightarrow> None | x # _ \<Rightarrow> Some x)"


section \<open>The forecasting utilities\<close>

subsection \<open>linearRegression\<close>

text \<open>The function has no \<^verbatim>\<open>throw\<close>: every division is a division of numbers.\<close>

definition regressionDenominator :: "jsnum list \<Rightarrow> jsnum" where
  "regressionDenominator xValues =
     (let n = Fin (real (length xValues));
          sumX = sumNums xValues;
          sumXX = sumNums (map (\<lambda>x. x * x) xValues)
      in n * sumXX - sumX * sumX)"

definition totalSumSquares :: "Engine \<Rightarrow> jsnum list \<Rightarrow> jsnum \<Rightarrow> jsnum" where
  "totalSumSquares E yValues yMean = sumNums (map (\<lambda>y. jpow E (y - yMean) 2) yValues)"

definition linearRegression :: "Engine \<Rightarrow> jsnum list \<Rightarrow> jsnum list \<Rightarrow> LinearFit" where
  "linearRegression E xValues yValues =
     (let n = Fin (real (length xValues));
          sumX = sumNums xValues;
          sumY = sumNums yValues;
          sumXY = sumNums (map (\<lambda>(i, x). x * numAt yValues i) (indexed xValues));
          slope = (n * sumXY - sumX * sumY) / regressionDenominator xValues;
          intercept = (sumY - slope * sumX) / n;
          yMean = sumY / n;
          residualSumSquares =
            sumNums (map (\<lambda>(i, y). jpow E (y - (slope * numAt xValues i + intercept)) 2)
                         (indexed yValues));
          r2 = Fin 1 - residualSumSquares / totalSumSquares E yValues yMean
      in \<lparr>slope = slope, intercept = intercept, r2 = r2\<rparr>)"

text \<open>\<^verbatim>\<open>xs.map((_, index) => index)\<close>\<close>

definition indices :: "'a list \<Rightarrow> jsnum list" where
  "indices xs = map (\<lambda>i. Fin (real i)) [0..<length xs]"

subsection \<open>exponentialSmoothing\<close>

fun smoothFrom :: "jsnum \<Rightarrow> jsnum \<Rightarrow> jsnum list \<Rightarrow> jsnum list" where
  "smoothFrom alpha prev [] = []"
| "smoothFrom alpha prev (p # ps) =
     (let smoothedValue = alpha * p + (Fin 1 - alpha) * prev
      in smoothedValue # smoothFrom alpha smoothedValue ps)"

text \<open>The array starts as \<^verbatim>\<open>[prices[0]]\<close>; for no prices that entry is
  \<^verbatim>\<open>undefined\<close>, which the only caller uses in a product, where it is \<open>NaN\<close>.\<close>

definition exponentialSmoothing :: "jsnum list \<Rightarrow> jsnum \<Rightarrow> jsnum list" where
  "exponentialSmoothing prices alpha =
     (case prices of [] \<Rightarrow> [NaN] | p # ps \<Rightarrow> p # smoothFrom alpha p ps)"

subsection \<open>calculateCorrelation and arimaForecast\<close>

definition calculateCorrelation :: "jsnum list \<Rightarrow> jsnum list \<Rightarrow> jsnum" where
  "calculateCorrelation x y =
     (let n = Fin (real (length x));
          sumX = sumNums x;
          sumY = sumNums y;
          sumXY = sumNums (map (\<lambda>(i, v). v * numAt y i) (indexed x));
          sumXX = sumNums (map (\<lambda>v. v * v) x);
          sumYY = sumNums (map (\<lambda>v. v * v) y);
          numerator = n * sumXY - sumX * sumY;
          denominator = jsqrt ((n * sumXX - sumX * sumX) * (n * sumYY - sumY * sumY))
      in if denominator = Fin 0 then Fin 0 else numerator / denominator)"

text \<open>The coefficients: one per lag from 1 to \<open>order\<close>, pushed only when the lagged
  sample is not empty.\<close>

definition arimaCoefficients :: "jsnum list \<Rightarrow> nat \<Rightarrow> jsnum list" where
  "arimaCoefficients prices order =
     concat (map (\<lambda>lag.
        (let x = map (\<lambda>i. numAt prices (i - lag)) [order..<length prices];
             y = map (\<lambda>i. numAt prices i) [order..<length prices]
         in if 0 < length x then [calculateCorrelation x y * literal (3 / 10)] else []))
       [1..<order + 1])"

text \<open>One pass of the forecasting loop: the weighted sum over the last \<open>order\<close> values,
  blended with the mean of the last twelve.\<close>

definition arimaStep :: "jsnum list \<Rightarrow> nat \<Rightarrow> jsnum list \<Rightarrow> jsnum" where
  "arimaStep coefficients order extendedPrices =
     (let forecast =
            foldl (\<lambda>forecast j.
                     (let coeff = orElse (nthOpt coefficients j) (Fin 0);
                          pastValue = numAt extendedPrices (length extendedPrices - 1 - j)
                      in forecast + coeff * pastValue))
                  (Fin 0) [0..<min order (length extendedPrices)];
          recentPrices = sliceLast 12 extendedPrices;
          avgPrice = sumNums recentPrices / Fin (real (length recentPrices))
      in forecast * literal (7 / 10) + avgPrice * literal (3 / 10))"

fun arimaLoop :: "jsnum list \<Rightarrow> nat \<Rightarrow> nat \<Rightarrow> jsnum list \<Rightarrow> jsnum list" where
  "arimaLoop coefficients order 0 extendedPrices = []"
| "arimaLoop coefficients order (Suc k) extendedPrices =
     (let forecast = arimaStep coefficients order extendedPrices
      in forecast # arimaLoop coefficients order k (extendedPrices @ [forecast]))"

definition arimaForecast :: "jsnum list \<Rightarrow> int \<Rightarrow> nat \<Rightarrow> error + jsnum list" where
  "arimaForecast prices periodsAhead order =
     (if length prices < order + 1 then Inl (Error ''Not enough data for ARIMA forecast'')
      else Inr (arimaLoop (arimaCoefficients prices order) order (nat periodsAhead) prices))"

subsection \<open>seasonalForecast\<close>

text \<open>\<open>seasonalFactors\<close> is the map of the same name: it has the keys 1 to 12.\<close>

definition monthPricesOf :: "CropPrice list \<Rightarrow> int \<Rightarrow> jsnum list" where
  "monthPricesOf priceData m = map price (filter (\<lambda>item. month item = Some m) priceData)"

definition overallAverage :: "CropPrice list \<Rightarrow> jsnum" where
  "overallAverage priceData = sumNums (map price priceData) / Fin (real (length priceData))"

definition seasonalFactors :: "CropPrice list \<Rightarrow> int \<Rightarrow> jsnum option" where
  "seasonalFactors priceData m =
     (if 1 \<le> m \<and> m \<le> 12 then
        (let monthPrices = monthPricesOf priceData m
         in if 0 < length monthPrices then
              (let monthAverage = sumNums monthPrices / Fin (real (length monthPrices))
               in Some (monthAverage / overallAverage priceData))
            else Some (Fin 1))
      else None)"

text \<open>One pass of the loop that generates the predictions, for \<open>i\<close> from 1.\<close>

definition seasonalPrediction ::
  "Engine \<Rightarrow> CropPrice list \<Rightarrow> LinearFit \<Rightarrow> jsdate \<Rightarrow> int \<Rightarrow> CropPrice" where
  "seasonalPrediction E priceData fit lastDate i =
     (let recentData = sliceLast 24 priceData;
          futureDate = plusMonths lastDate i;
          year = getFullYear futureDate;
          month = getMonth1 futureDate;
          trendPrice = slope fit * (Fin (real (length recentData)) + Fin (of_int i))
                         + intercept fit;
          seasonalFactor =
            orElse (case month of None \<Rightarrow> None | Some m \<Rightarrow> seasonalFactors priceData m)
                   (Fin 1);
          predictedPrice = trendPrice * seasonalFactor;
          variation = (Fin (mathRandom E (nat (i - 1))) - literal (5 / 10)) * literal (1 / 10);
          finalPrice = predictedPrice * (Fin 1 + variation)
      in \<lparr>id' = ''predicted-'' @ templ (map_option crop (first priceData)) @ ''-''
                  @ showNum year @ ''-'' @ showNum month,
          crop = strOr (map_option crop (first priceData)) ''unknown'',
          year = year,
          month = month,
          price = jround (finalPrice * Fin 100) / Fin 100,
          unit' = strOr (map_option unit' (first priceData)) ''USD/metric ton'',
          source = ''ML Prediction'',
          region = Some (strOr (Option.bind (first priceData) region) ''Global''),
          quality = Some ''Forecasted'',
          isPrediction = None,
          confidenceInterval = None\<rparr>)"

text \<open>The function: \<open>Inl\<close> is the \<^verbatim>\<open>RangeError\<close> of the spread in the line that finds the
  last date.\<close>

definition seasonalForecast :: "Engine \<Rightarrow> CropPrice list \<Rightarrow> int \<Rightarrow> error + CropPrice list" where
  "seasonalForecast E priceData monthsAhead =
     (let recentData = sliceLast 24 priceData;
          fit = linearRegression E (indices recentData) (map price recentData)
      in case lastDateOf E priceData of
           Inl e \<Rightarrow> Inl e
         | Inr lastDate \<Rightarrow>
             Inr (map (seasonalPrediction E priceData fit lastDate) [1..monthsAhead]))"

subsection \<open>ensembleForecast\<close>

text \<open>\<^verbatim>\<open>new Array(n).fill(v)\<close>: a \<^verbatim>\<open>RangeError\<close> for a negative length. (An array holds
  fewer than \<open>2^32\<close> elements; that bound is out of reach of a horizon in months and is not
  modelled, here or in the loops that push one prediction for each month.)\<close>

definition newArrayFill :: "int \<Rightarrow> 'a \<Rightarrow> error + 'a list" where
  "newArrayFill n v =
     (if n < 0 then Inl (RangeError ''Invalid array length'') else Inr (replicate (nat n) v))"

text \<open>
  The inner \<^verbatim>\<open>try\<close>: the forecasts of \<open>arimaForecast\<close> with the default order 3, or, when
  it throws, an array filled with \<^verbatim>\<open>prices[prices.length - 1]\<close> (\<^verbatim>\<open>undefined\<close> for no
  prices). The handler itself can throw.
\<close>

definition ensembleArimaForecasts :: "jsnum list \<Rightarrow> int \<Rightarrow> error + jsnum option list" where
  "ensembleArimaForecasts prices monthsAhead =
     (case arimaForecast prices monthsAhead 3 of
        Inr forecasts \<Rightarrow> Inr (map Some forecasts)
      | Inl e \<Rightarrow> newArrayFill monthsAhead (nthOpt prices (length prices - 1)))"

text \<open>The terms of step \<open>i\<close> (from 0) of the combining loop.\<close>

definition ensembleLinearPrice :: "Engine \<Rightarrow> jsnum list \<Rightarrow> nat \<Rightarrow> jsnum" where
  "ensembleLinearPrice E prices i =
     (let fit = linearRegression E (indices prices) prices
      in slope fit * (Fin (real (length prices)) + Fin (real i)) + intercept fit)"

definition ensembleSmoothingPrice :: "Engine \<Rightarrow> jsnum list \<Rightarrow> jsnum" where
  "ensembleSmoothingPrice E prices =
     (let fit = linearRegression E (indices prices) prices;
          smoothedPrices = exponentialSmoothing prices (literal (3 / 10));
          lastSmoothed = numAt smoothedPrices (length smoothedPrices - 1)
      in lastSmoothed * (Fin 1 + (slope fit / intercept fit) * literal (1 / 100)))"

definition ensembleArimaPrice ::
  "Engine \<Rightarrow> jsnum option list \<Rightarrow> jsnum list \<Rightarrow> nat \<Rightarrow> jsnum" where
  "ensembleArimaPrice E arimaForecasts prices i =
     orElse (case nthOpt arimaForecasts i of None \<Rightarrow> None | Some v \<Rightarrow> v)
            (ensembleLinearPrice E prices i)"

definition ensemblePrice ::
  "Engine \<Rightarrow> CropPrice list \<Rightarrow> jsnum option list \<Rightarrow> jsnum list \<Rightarrow> nat \<Rightarrow> jsnum" where
  "ensemblePrice E seasonalPredictions arimaForecasts prices i =
     (let seasonalPrice = orElse (map_option price (nthOpt seasonalPredictions i)) (Fin 0);
          linearPrice = ensembleLinearPrice E prices i;
          smoothingPrice = ensembleSmoothingPrice E prices;
          arimaPrice = ensembleArimaPrice E arimaForecasts prices i
      in seasonalPrice * literal (4 / 10) + linearPrice * literal (25 / 100)
           + smoothingPrice * literal (2 / 10) + arimaPrice * literal (15 / 100))"

definition ensembleTry :: "Engine \<Rightarrow> CropPrice list \<Rightarrow> int \<Rightarrow> error + CropPrice list" where
  "ensembleTry E priceData monthsAhead =
     (case seasonalForecast E priceData monthsAhead of
        Inl e \<Rightarrow> Inl e
      | Inr seasonalPredictions \<Rightarrow>
          (let prices = map price priceData
           in case ensembleArimaForecasts prices monthsAhead of
                Inl e \<Rightarrow> Inl e
              | Inr arimaForecasts \<Rightarrow>
                  Inr (concat (map (\<lambda>i.
                    (case nthOpt seasonalPredictions i of
                       None \<Rightarrow> []
                     | Some prediction \<Rightarrow>
                         [prediction\<lparr>
                            price :=
                              jround (ensemblePrice E seasonalPredictions arimaForecasts prices i
                                       * Fin 100) / Fin 100,
                            source := ''Ensemble ML Prediction'',
                            quality := Some ''AI Forecasted''\<rparr>]))
                    [0..<nat monthsAhead]))))"

text \<open>
  The outer \<^verbatim>\<open>catch\<close> runs \<open>seasonalForecast\<close> again, outside any \<^verbatim>\<open>try\<close>. When the run
  inside the \<^verbatim>\<open>try\<close> completed, it has by then drawn one random number for each of its
  predictions; when it threw, so does the second run.
\<close>

definition ensembleForecast :: "Engine \<Rightarrow> CropPrice list \<Rightarrow> int \<Rightarrow> error + CropPrice list" where
  "ensembleForecast E priceData monthsAhead =
     (case ensembleTry E priceData monthsAhead of
        Inr combinedPredictions \<Rightarrow> Inr combinedPredictions
      | Inl e \<Rightarrow>
          seasonalForecast (E\<lparr>mathRandom := \<lambda>k. mathRandom E (k + nat monthsAhead)\<rparr>)
            priceData monthsAhead)"

subsection \<open>calculateConfidenceIntervals\<close>

definition returnsOf :: "jsnum list \<Rightarrow> jsnum list" where
  "returnsOf historicalPrices =
     map (\<lambda>i. (numAt historicalPrices i - numAt historicalPrices (i - 1))
                 / numAt historicalPrices (i - 1))
         [1..<length historicalPrices]"

definition volatilityOf :: "jsnum list \<Rightarrow> jsnum" where
  "volatilityOf historicalPrices =
     (let returns = returnsOf historicalPrices
      in jsqrt (sumNums (map (\<lambda>r. r * r) returns) / Fin (real (length returns))))"

definition zScoreOf :: "jsnum \<Rightarrow> jsnum" where
  "zScoreOf confidenceLevel =
     (if confidenceLevel = literal (95 / 100) then literal (196 / 100)
      else if confidenceLevel = literal (99 / 100) then literal (258 / 100)
      else literal (1645 / 1000))"

text \<open>The term \<^verbatim>\<open>zScore * volatility * pred * timeAdjustment\<close> of both bounds.\<close>

definition marginOf :: "jsnum \<Rightarrow> jsnum \<Rightarrow> nat \<Rightarrow> jsnum \<Rightarrow> jsnum" where
  "marginOf zScore volatility i pred =
     (let timeAdjustment = jsqrt (Fin (real i) + Fin 1)
      in zScore * volatility * pred * timeAdjustment)"

definition calculateConfidenceIntervals ::
  "jsnum list \<Rightarrow> jsnum list \<Rightarrow> jsnum \<Rightarrow> ConfidenceIntervals" where
  "calculateConfidenceIntervals historicalPrices preds confidenceLevel =
     (let volatility = volatilityOf historicalPrices;
          zScore = zScoreOf confidenceLevel
      in \<lparr>lower = map (\<lambda>(i, pred). pred - marginOf zScore volatility i pred) (indexed preds),
          upper = map (\<lambda>(i, pred). pred + marginOf zScore volatility i pred) (indexed preds)\<rparr>)"

section \<open>PredictionService\<close>

text \<open>The registry of models (without \<^verbatim>\<open>lastUpdated\<close>, the time of loading).\<close>

definition models :: "PredictionModel list" where
  "models =
     [\<lparr>name = ''Ensemble ML Model'', accuracy = literal (85 / 100),
       description =
         ''Combines seasonal, linear regression, exponential smoothing, and ARIMA models''\<rparr>,
      \<lparr>name = ''Seasonal Decomposition'', accuracy = literal (78 / 100),
       description = ''Uses historical seasonal patterns and trend analysis''\<rparr>,
      \<lparr>name = ''Linear Regression'', accuracy = literal (72 / 100),
       description = ''Simple linear trend extrapolation''\<rparr>]"

definition linearPrediction ::
  "CropPrice list \<Rightarrow> LinearFit \<Rightarrow> jsdate \<Rightarrow> int \<Rightarrow> CropPrice" where
  "linearPrediction historicalData fit lastDate i =
     (let futureDate = plusMonths lastDate i;
          predictedPrice =
            slope fit * (Fin (real (length historicalData)) + Fin (of_int i)) + intercept fit
      in \<lparr>id' = ''linear-prediction-'' @ templ (map_option crop (first historicalData))
                  @ ''-'' @ showNum (getFullYear futureDate)
                  @ ''-'' @ showNum (getMonth1 futureDate),
          crop = strOr (map_option crop (first historicalData)) ''unknown'',
          year = getFullYear futureDate,
          month = getMonth1 futureDate,
          price = jmax (Fin 0) (jround (predictedPrice * Fin 100) / Fin 100),
          unit' = strOr (map_option unit' (first historicalData)) ''USD/metric ton'',
          source = ''Linear Regression Model'',
          region = Some (strOr (Option.bind (first historicalData) region) ''Global''),
          quality = Some ''ML Predicted'',
          isPrediction = Some True,
          confidenceInterval = None\<rparr>)"

definition generateLinearPredictions ::
  "Engine \<Rightarrow> CropPrice list \<Rightarrow> int \<Rightarrow> error + CropPrice list" where
  "generateLinearPredictions E historicalData monthsAhead =
     (let prices = map price historicalData;
          fit = linearRegression E (indices historicalData) prices
      in case lastDateOf E historicalData of
           Inl e \<Rightarrow> Inl e
         | Inr lastDate \<Rightarrow>
             Inr (map (linearPrediction historicalData fit lastDate) [1..monthsAhead]))"

definition simplePrediction ::
  "Engine \<Rightarrow> CropPrice list \<Rightarrow> jsnum \<Rightarrow> jsdate \<Rightarrow> int \<Rightarrow> CropPrice" where
  "simplePrediction E historicalData avgRecentPrice lastDate i =
     (let monthlyGrowthRate = literal (2 / 100) / Fin 12;
          futureDate = plusMonths lastDate i;
          predictedPrice = avgRecentPrice * jpow E (Fin 1 + monthlyGrowthRate) (nat i)
      in \<lparr>id' = ''simple-prediction-'' @ templ (map_option crop (first historicalData))
                  @ ''-'' @ showNum (getFullYear futureDate)
                  @ ''-'' @ showNum (getMonth1 futureDate),
          crop = strOr (map_option crop (first historicalData)) ''unknown'',
          year = getFullYear futureDate,
          month = getMonth1 futureDate,
          price = jround (predictedPrice * Fin 100) / Fin 100,
          unit' = strOr (map_option unit' (first historicalData)) ''USD/metric ton'',
          source = ''Simple Trend Model'',
          region = Some (strOr (Option.bind (first historicalData) region) ''Global''),
          quality = Some ''Basic Prediction'',
          isPrediction = Some True,
          confidenceInterval = None\<rparr>)"

definition generateSimpleTrendPredictions ::
  "Engine \<Rightarrow> CropPrice list \<Rightarrow> int \<Rightarrow> error + CropPrice list" where
  "generateSimpleTrendPredictions E historicalData monthsAhead =
     (if length historicalData = 0 then Inr []
      else
        (let recentData = sliceLast 12 historicalData;
             avgRecentPrice =
               sumNums (map price recentData) / Fin (real (length recentData))
         in case lastDateOf E historicalData of
              Inl e \<Rightarrow> Inl e
            | Inr lastDate \<Rightarrow>
                Inr (map (simplePrediction E historicalData avgRecentPrice lastDate)
                         [1..monthsAhead])))"

text \<open>The end of the \<^verbatim>\<open>try\<close> block: the intervals are attached and the result is built.\<close>

definition enhance ::
  "CropPrice list \<Rightarrow> CropPrice list \<Rightarrow> PredictionModel \<Rightarrow> string list \<Rightarrow> int \<Rightarrow> ForecastResult" where
  "enhance historicalData preds m methods monthsAhead =
     (let historicalPrices = map price historicalData;
          predictionPrices = map price preds;
          ci = calculateConfidenceIntervals historicalPrices predictionPrices
                 (literal (95 / 100));
          enhancedPredictions =
            map (\<lambda>(index, pred).
                   pred\<lparr>isPrediction := Some True,
                        confidenceInterval :=
                          Some (jround (numAt (lower ci) index * Fin 100) / Fin 100,
                                jround (numAt (upper ci) index * Fin 100) / Fin 100)\<rparr>)
                (indexed preds)
      in \<lparr>predictions = enhancedPredictions,
          confidence = PredictionModel.accuracy m,
          model = name m,
          accuracy = PredictionModel.accuracy m,
          metadata = \<lparr>methodsUsed = methods,
                      dataPoints = length historicalData,
                      forecastHorizon = monthsAhead\<rparr>\<rparr>)"

text \<open>The body of the \<^verbatim>\<open>try\<close> block of \<open>generatePredictions\<close>: \<open>Inl\<close> is a \<^verbatim>\<open>throw\<close>.\<close>

definition generatePredictionsTry ::
  "Engine \<Rightarrow> CropPrice list \<Rightarrow> int \<Rightarrow> modelType \<Rightarrow> error + ForecastResult" where
  "generatePredictionsTry E historicalData monthsAhead modelType =
     (if length historicalData < 12 then
        Inl (Error ''Insufficient historical data for reliable predictions'')
      else
        (case modelType of
           Ensemble \<Rightarrow>
             (case ensembleForecast E historicalData monthsAhead of
                Inl e \<Rightarrow> Inl e
              | Inr preds \<Rightarrow>
                  Inr (enhance historicalData preds (models ! 0)
                         [''Seasonal Analysis'', ''Linear Regression'',
                          ''Exponential Smoothing'', ''ARIMA'']
                         monthsAhead))
         | Seasonal \<Rightarrow>
             (case seasonalForecast E historicalData monthsAhead of
                Inl e \<Rightarrow> Inl e
              | Inr preds \<Rightarrow>
                  Inr (enhance historicalData preds (models ! 1)
                         [''Seasonal Decomposition'', ''Trend Analysis''] monthsAhead))
         | Linear \<Rightarrow>
             (case generateLinearPredictions E historicalData monthsAhead of
                Inl e \<Rightarrow> Inl e
              | Inr preds \<Rightarrow>
                  Inr (enhance historicalData preds (models ! 2) [''Linear Regression'']
                         monthsAhead))
         | Unlisted \<Rightarrow>
             (case ensembleForecast E historicalData monthsAhead of
                Inl e \<Rightarrow> Inl e
              | Inr preds \<Rightarrow>
                  Inr (enhance historicalData preds (models ! 0) [''Ensemble Methods'']
                         monthsAhead))))"

text \<open>The \<^verbatim>\<open>catch\<close> block. It calls \<open>generateSimpleTrendPredictions\<close> outside any
  \<^verbatim>\<open>try\<close>: what that call throws leaves \<open>generatePredictions\<close>, and the promise is
  rejected.\<close>

definition fallbackResult :: "Engine \<Rightarrow> CropPrice list \<Rightarrow> int \<Rightarrow> error + ForecastResult" where
  "fallbackResult E historicalData monthsAhead =
     (case generateSimpleTrendPredictions E historicalData monthsAhead of
        Inl e \<Rightarrow> Inl e
      | Inr fallbackPredictions \<Rightarrow>
          Inr \<lparr>predictions = fallbackPredictions,
               confidence = literal (60 / 100),
               model = ''Simple Trend Model (Fallback)'',
               accuracy = literal (60 / 100),
               metadata = \<lparr>methodsUsed = [''Simple Trend''],
                           dataPoints = length historicalData,
                           forecastHorizon = monthsAhead\<rparr>\<rparr>)"

definition generatePredictions ::
  "Engine \<Rightarrow> CropPrice list \<Rightarrow> int \<Rightarrow> modelType \<Rightarrow> error + ForecastResult" where
  "generatePredictions E historicalData monthsAhead modelType =
     (case generatePredictionsTry E historicalData monthsAhead modelType of
        Inr result \<Rightarrow> Inr result
      | Inl e \<Rightarrow> fallbackResult E historicalData monthsAhead)"

definition validateDataForPrediction :: "CropPrice list \<Rightarrow> ValidationResult" where
  "validateDataForPrediction data =
     (if length data = 0 then
        \<lparr>isValid = False,
         message = ''No historical data available'',
         recommendations = Some [''Select a crop with available data'']\<rparr>
      else if length data < 6 then
        \<lparr>isValid = False,
         message = ''Insufficient data for reliable predictions'',
         recommendations = Some [''At least 6 months of historical data required'',
                                 ''Try selecting a longer time range'']\<rparr>
      else if length data < 12 then
        \<lparr>isValid = True,
         message = ''Limited data available - predictions may be less accurate'',
         recommendations = Some [''Consider selecting a longer time range for better accuracy'',
                                 ''Predictions will use simplified models'']\<rparr>
      else
        \<lparr>isValid = True,
         message = ''Sufficient data available for accurate predictions'',
         recommendations = None\<rparr>)"

section \<open>Notions of the specification\<close>

text \<open>
  The (year, month) of a point, when both are numbers, and the invariant of the data
  model: a year from 1900 on and a month from 1 to 12.
\<close>

definition yearMonth :: "CropPrice \<Rightarrow> (int \<times> int) option" where
  "yearMonth p = (case (year p, month p) of (Some y, Some m) \<Rightarrow> Some (y, m) | _ \<Rightarrow> None)"

definition validPoint :: "CropPrice \<Rightarrow> bool" where
  "validPoint p =
     (case yearMonth p of None \<Rightarrow> False | Some (y, m) \<Rightarrow> 1900 \<le> y \<and> 1 \<le> m \<and> m \<le> 12)"

text \<open>The calendar: the month after (y, m), the month \<open>k\<close> months after it, and the
  order of months.\<close>

fun nextMonth :: "int \<times> int \<Rightarrow> int \<times> int" where
  "nextMonth (y, m) = (if m = 12 then (y + 1, 1) else (y, m + 1))"

fun monthsAfter :: "int \<times> int \<Rightarrow> nat \<Rightarrow> int \<times> int" where
  "monthsAfter ym 0 = ym"
| "monthsAfter ym (Suc k) = nextMonth (monthsAfter ym k)"

fun notAfter :: "int \<times> int \<Rightarrow> int \<times> int \<Rightarrow> bool" where
  "notAfter (y, m) (y', m') = (y < y' \<or> (y = y' \<and> m \<le> m'))"


text \<open>Months counted from year 0, as the dates count them, and back.\<close>

definition monthNumber :: "int \<times> int \<Rightarrow> int" where
  "monthNumber ym = fst ym * 12 + (snd ym - 1)"

definition ofMonthNumber :: "int \<Rightarrow> int \<times> int" where
  "ofMonthNumber k = (k div 12, k mod 12 + 1)"


text \<open>
  The point is dated within the range of \<^verbatim>\<open>Date\<close>, and so is the month \<open>h\<close> months
  after it.
\<close>

definition withinDateRange :: "CropPrice \<Rightarrow> int \<Rightarrow> bool" where
  "withinDateRange p h =
     (case yearMonth p of
        None \<Rightarrow> False
      | Some ym \<Rightarrow> validMonth (monthNumber ym) \<and> monthNumber ym + h \<le> 275760 * 12 + 8)"

section \<open>Sample data\<close>

definition mkPoint :: "int \<Rightarrow> int \<Rightarrow> real \<Rightarrow> CropPrice" where
  "mkPoint y m v =
     \<lparr>id' = ''sample'', crop = ''corn'', year = Some y, month = Some m, price = Fin v,
      unit' = ''USD/metric ton'', source = ''Mock Data'', region = None, quality = None,
      isPrediction = None, confidenceInterval = None\<rparr>"

definition sampleYear :: "CropPrice list" where
  "sampleYear =
     [mkPoint 2023 1 160, mkPoint 2023 2 160, mkPoint 2023 3 160, mkPoint 2023 4 160,
      mkPoint 2023 5 160, mkPoint 2023 6 160, mkPoint 2023 7 160, mkPoint 2023 8 160,
      mkPoint 2023 9 160, mkPoint 2023 10 160, mkPoint 2023 11 160, mkPoint 2023 12 160]"


text \<open>A monthly series of 200000 points, from January 1900 on, and the twelve months
  that end with the last month a \<^verbatim>\<open>Date\<close> can hold.\<close>

definition longSeries :: "CropPrice list" where
  "longSeries = map (\<lambda>k. mkPoint (1900 + int k div 12) (int k mod 12 + 1) 160) [0..<200000]"

definition lateYear :: "CropPrice list" where
  "lateYear =
     [mkPoint 275759 10 160, mkPoint 275759 11 160, mkPoint 275759 12 160,
      mkPoint 275760 1 160, mkPoint 275760 2 160, mkPoint 275760 3 160, mkPoint 275760 4 160,
      mkPoint 275760 5 160, mkPoint 275760 6 160, mkPoint 275760 7 160, mkPoint 275760 8 160,
      mkPoint 275760 9 160]"

text \<open>
  An engine for the examples: a random source that always returns one half (no variation),
  a power that is correctly rounded, and a limit of 125000 arguments.
\<close>

definition sampleEngine :: Engine where
  "sampleEngine =
     \<lparr>mathRandom = (\<lambda>k. 1 / 2), mathPow = (\<lambda>a n. round64 (a ^ n)), extraArguments = 59465\<rparr>"

section \<open>Facts about rounding\<close>

text \<open>Powers of two, and the exponent that the search finds.\<close>

lemma pow2_powr: "pow2 k = 2 powr (real_of_int k)"
  by (simp add: pow2_def powr_real_of_int inverse_eq_divide)

lemma pow2_pos [simp]: "0 < pow2 k"
  by (simp add: pow2_powr)

lemma pow2_nonneg [simp]: "0 \<le> pow2 k"
  by (simp add: pow2_powr)

lemma pow2_nonzero [simp]: "pow2 k \<noteq> 0"
  by (simp add: pow2_powr)

lemma pow2_add: "pow2 (a + b) = pow2 a * pow2 b"
  by (simp add: pow2_powr powr_add)

lemma pow2_le_iff [simp]: "pow2 a \<le> pow2 b \<longleftrightarrow> a \<le> b"
  by (simp add: pow2_powr)

lemma pow2_less_iff [simp]: "pow2 a < pow2 b \<longleftrightarrow> a < b"
  by (simp add: pow2_powr)

lemma pow2_nat: "pow2 (int n) = 2 ^ n"
  by (simp add: pow2_def)

lemma pow2_neg_nat: "pow2 (- int n) = 1 / 2 ^ n"
  by (simp add: pow2_powr powr_minus_divide powr_realpow)

lemma pow2_diff: "pow2 (a - b) = pow2 a / pow2 b"
  by (simp add: pow2_powr powr_diff)

lemma expUp_spec:
  "2 ^ n \<le> x \<Longrightarrow> n \<le> 1024 \<Longrightarrow>
   expUp n x \<le> 1024 \<and> 2 ^ expUp n x \<le> x \<and> (x < 2 ^ (expUp n x + 1) \<or> expUp n x = 1024)"
proof (induction n x rule: expUp.induct)
  case (1 n x)
  show ?case
  proof (cases "x < 2 ^ (n + 1) \<or> 1024 \<le> n")
    case True
    then have "expUp n x = n"
      by (simp add: expUp.simps)
    with True "1.prems" show ?thesis by auto
  next
    case False
    then have e: "expUp n x = expUp (n + 1) x"
      by (subst expUp.simps) simp
    from False have "2 ^ (n + 1) \<le> x" "n + 1 \<le> 1024" by auto
    from "1.IH" [OF False this] show ?thesis
      by (simp only: e)
  qed
qed

lemma expDown_spec:
  "x * 2 ^ (n - 1) < 1 \<Longrightarrow> 1 \<le> n \<Longrightarrow> n \<le> 1075 \<Longrightarrow>
   1 \<le> expDown n x \<and> expDown n x \<le> 1075 \<and> x * 2 ^ (expDown n x - 1) < 1 \<and>
   (1 \<le> x * 2 ^ expDown n x \<or> expDown n x = 1075)"
proof (induction n x rule: expDown.induct)
  case (1 n x)
  show ?case
  proof (cases "1 \<le> x * 2 ^ n \<or> 1075 \<le> n")
    case True
    then have "expDown n x = n"
      by (simp add: expDown.simps)
    with True "1.prems" show ?thesis by auto
  next
    case False
    then have e: "expDown n x = expDown (n + 1) x"
      by (subst expDown.simps) simp
    from False have "x * 2 ^ (n + 1 - 1) < 1" "1 \<le> n + 1" "n + 1 \<le> 1075" by auto
    from "1.IH" [OF False this] show ?thesis
      by (simp only: e)
  qed
qed

lemma clampedExponent_range: "- 1022 \<le> clampedExponent a"
  by (simp add: clampedExponent_def)

lemma clampedExponent_upper:
  assumes "0 < a" and "clampedExponent a \<noteq> 1024"
  shows "a < pow2 (clampedExponent a + 1)"
proof (cases "1 \<le> a")
  case True
  then have "2 ^ 0 \<le> a" by simp
  from expUp_spec [OF this] have s: "a < 2 ^ (expUp 0 a + 1) \<or> expUp 0 a = 1024"
    by simp
  from True have e: "clampedExponent a = int (expUp 0 a)"
    by (simp add: clampedExponent_def exponentOf_def)
  with assms(2) s have "a < 2 ^ (expUp 0 a + 1)" by auto
  also have "\<dots> = pow2 (int (expUp 0 a) + 1)"
    using pow2_nat [of "expUp 0 a + 1"] by (simp add: add.commute)
  finally show ?thesis by (simp add: e)
next
  case False
  then have "a * 2 ^ (1 - 1) < 1" by simp
  from expDown_spec [OF this] have s: "1 \<le> expDown 1 a" "a * 2 ^ (expDown 1 a - 1) < 1"
    by simp_all
  define r where "r = expDown 1 a"
  from s have r: "1 \<le> r" "a * 2 ^ (r - 1) < 1" by (simp_all add: r_def)
  then have "a < 1 / 2 ^ (r - 1)"
    by (simp add: field_simps)
  also have "\<dots> = pow2 (- int (r - 1))"
    by (simp add: pow2_neg_nat)
  also have "- int (r - 1) = - int r + 1"
    using r(1) by simp
  finally have "a < pow2 (- int r + 1)" .
  moreover have "- int r \<le> clampedExponent a"
    using False by (simp add: clampedExponent_def exponentOf_def r_def)
  then have "pow2 (- int r + 1) \<le> pow2 (clampedExponent a + 1)"
    by simp
  ultimately show ?thesis by linarith
qed

lemma clampedExponent_lower:
  assumes "0 < a" and "clampedExponent a \<noteq> - 1022"
  shows "pow2 (clampedExponent a) \<le> a"
proof (cases "1 \<le> a")
  case True
  then have "2 ^ 0 \<le> a" by simp
  from expUp_spec [OF this] have "2 ^ expUp 0 a \<le> a"
    by simp
  moreover from True have "clampedExponent a = int (expUp 0 a)"
    by (simp add: clampedExponent_def exponentOf_def)
  ultimately show ?thesis
    by (simp add: pow2_nat)
next
  case False
  then have "a * 2 ^ (1 - 1) < 1" by simp
  from expDown_spec [OF this]
  have s: "1 \<le> a * 2 ^ expDown 1 a \<or> expDown 1 a = 1075"
    by simp
  define r where "r = expDown 1 a"
  from False have e: "exponentOf a = - int r"
    by (simp add: exponentOf_def r_def)
  with assms(2) have c: "clampedExponent a = - int r" and "int r < 1022"
    by (auto simp: clampedExponent_def max_def split: if_splits)
  with s have "1 \<le> a * 2 ^ r"
    by (auto simp: r_def)
  then have "1 / 2 ^ r \<le> a"
    by (simp add: field_simps)
  then show ?thesis
    by (simp add: c pow2_neg_nat)
qed

lemma clampedExponent_mono:
  assumes "0 < a" and "a \<le> b"
  shows "clampedExponent a \<le> clampedExponent b"
proof (rule ccontr)
  assume "\<not> clampedExponent a \<le> clampedExponent b"
  then have less: "clampedExponent b < clampedExponent a" by simp
  have upper: "clampedExponent a \<le> 1024"
  proof (cases "1 \<le> a")
    case True
    then have "2 ^ 0 \<le> a" by simp
    from expUp_spec [OF this] have "expUp 0 a \<le> 1024" by simp
    with True show ?thesis
      by (simp add: clampedExponent_def exponentOf_def)
  next
    case False
    then show ?thesis
      by (simp add: clampedExponent_def exponentOf_def)
  qed
  from less clampedExponent_range [of b] have "clampedExponent a \<noteq> - 1022" by linarith
  from clampedExponent_lower [OF assms(1) this] have 1: "pow2 (clampedExponent a) \<le> a" .
  from less upper have "clampedExponent b \<noteq> 1024" by linarith
  moreover from assms have "0 < b" by linarith
  ultimately have 2: "b < pow2 (clampedExponent b + 1)"
    using clampedExponent_upper by blast
  from less have "pow2 (clampedExponent b + 1) \<le> pow2 (clampedExponent a)"
    by simp
  with 1 2 assms(2) show False by linarith
qed

lemma roundHalfEven_of_int [simp]: "roundHalfEven (of_int n) = n"
  by (simp add: roundHalfEven_def)

lemma roundHalfEven_bounds: "\<lfloor>x\<rfloor> \<le> roundHalfEven x \<and> roundHalfEven x \<le> \<lfloor>x\<rfloor> + 1"
  by (simp add: roundHalfEven_def Let_def)

lemma roundHalfEven_mono:
  assumes "x \<le> y"
  shows "roundHalfEven x \<le> roundHalfEven y"
proof (cases "\<lfloor>x\<rfloor> = \<lfloor>y\<rfloor>")
  case True
  with assms show ?thesis
    by (simp add: roundHalfEven_def Let_def)
next
  case False
  with assms have "\<lfloor>x\<rfloor> + 1 \<le> \<lfloor>y\<rfloor>"
    using floor_mono [of x y] by linarith
  with roundHalfEven_bounds [of x] roundHalfEven_bounds [of y] show ?thesis
    by linarith
qed

lemma roundPos_clamped:
  "roundPos a =
     of_int (roundHalfEven (a / pow2 (clampedExponent a - 52))) * pow2 (clampedExponent a - 52)"
  by (simp add: roundPos_def Let_def)

lemma pow2_split53: "pow2 (e + 1) = pow2 53 * pow2 (e - 52)"
proof -
  have "e + 1 = 53 + (e - 52)" by simp
  then have "pow2 (e + 1) = pow2 (53 + (e - 52))" by (rule arg_cong)
  then show ?thesis by (simp only: pow2_add)
qed

lemma pow2_split52: "pow2 e = pow2 52 * pow2 (e - 52)"
proof -
  have "e = 52 + (e - 52)" by simp
  then have "pow2 e = pow2 (52 + (e - 52))" by (rule arg_cong)
  then show ?thesis by (simp only: pow2_add)
qed

lemma pow2_53: "pow2 53 = of_int (2 ^ 53)"
  using pow2_nat [of 53] by simp

lemma pow2_52: "pow2 52 = of_int (2 ^ 52)"
  using pow2_nat [of 52] by simp

lemma clampedExponent_le:
  assumes "0 < a"
  shows "clampedExponent a \<le> 1024"
proof (cases "1 \<le> a")
  case True
  then have "2 ^ 0 \<le> a" by simp
  from expUp_spec [OF this] have "expUp 0 a \<le> 1024" by simp
  with True show ?thesis
    by (simp add: clampedExponent_def exponentOf_def)
next
  case False
  then show ?thesis
    by (simp add: clampedExponent_def exponentOf_def)
qed

lemma roundPos_upper:
  assumes "0 < a" and "clampedExponent a \<noteq> 1024"
  shows "roundPos a \<le> pow2 (clampedExponent a + 1)"
proof -
  define e where "e = clampedExponent a"
  have "a < pow2 (e + 1)"
    using clampedExponent_upper [OF assms] by (simp add: e_def)
  also have "pow2 (e + 1) = pow2 53 * pow2 (e - 52)"
    by (rule pow2_split53)
  finally have "a / pow2 (e - 52) \<le> pow2 53"
    by (simp add: pos_divide_le_eq)
  then have "roundHalfEven (a / pow2 (e - 52)) \<le> roundHalfEven (of_int (2 ^ 53))"
    unfolding pow2_53 by (rule roundHalfEven_mono)
  then have "roundHalfEven (a / pow2 (e - 52)) \<le> 2 ^ 53"
    by (simp only: roundHalfEven_of_int)
  then have "real_of_int (roundHalfEven (a / pow2 (e - 52))) \<le> pow2 53"
    unfolding pow2_53 by (simp only: of_int_le_iff)
  then have "real_of_int (roundHalfEven (a / pow2 (e - 52))) * pow2 (e - 52)
               \<le> pow2 53 * pow2 (e - 52)"
    by (simp add: mult_right_mono)
  also have "pow2 53 * pow2 (e - 52) = pow2 (e + 1)"
    by (rule pow2_split53 [symmetric])
  finally show ?thesis
    by (simp add: roundPos_clamped e_def)
qed

lemma roundPos_lower:
  assumes "0 < a" and "clampedExponent a \<noteq> - 1022"
  shows "pow2 (clampedExponent a) \<le> roundPos a"
proof -
  define e where "e = clampedExponent a"
  have split: "pow2 e = pow2 52 * pow2 (e - 52)"
    by (rule pow2_split52)
  have "pow2 e \<le> a"
    using clampedExponent_lower [OF assms] by (simp add: e_def)
  then have "pow2 52 \<le> a / pow2 (e - 52)"
    by (simp add: split pos_le_divide_eq)
  then have "roundHalfEven (of_int (2 ^ 52)) \<le> roundHalfEven (a / pow2 (e - 52))"
    unfolding pow2_52 by (rule roundHalfEven_mono)
  then have "2 ^ 52 \<le> roundHalfEven (a / pow2 (e - 52))"
    by (simp only: roundHalfEven_of_int)
  then have "pow2 52 \<le> real_of_int (roundHalfEven (a / pow2 (e - 52)))"
    unfolding pow2_52 by (simp only: of_int_le_iff)
  then have "pow2 52 * pow2 (e - 52)
               \<le> real_of_int (roundHalfEven (a / pow2 (e - 52))) * pow2 (e - 52)"
    by (simp add: mult_right_mono)
  then have "pow2 e \<le> real_of_int (roundHalfEven (a / pow2 (e - 52))) * pow2 (e - 52)"
    by (simp only: split [symmetric])
  then show ?thesis
    by (simp only: roundPos_clamped e_def)
qed

lemma roundPos_nonneg:
  assumes "0 \<le> a"
  shows "0 \<le> roundPos a"
proof -
  have "0 \<le> a / pow2 (clampedExponent a - 52)"
    using assms by simp
  then have "roundHalfEven (of_int 0) \<le> roundHalfEven (a / pow2 (clampedExponent a - 52))"
    by (intro roundHalfEven_mono) simp
  then have "0 \<le> roundHalfEven (a / pow2 (clampedExponent a - 52))"
    by (simp only: roundHalfEven_of_int)
  then show ?thesis
    by (simp add: roundPos_clamped)
qed

lemma roundPos_mono:
  assumes "0 < a" and "a \<le> b"
  shows "roundPos a \<le> roundPos b"
proof -
  from assms have b: "0 < b" by linarith
  have le: "clampedExponent a \<le> clampedExponent b"
    using assms by (rule clampedExponent_mono)
  show ?thesis
  proof (cases "clampedExponent a = clampedExponent b")
    case True
    have "a / pow2 (clampedExponent b - 52) \<le> b / pow2 (clampedExponent b - 52)"
      using assms(2) by (simp add: divide_right_mono)
    then have "roundHalfEven (a / pow2 (clampedExponent b - 52))
                 \<le> roundHalfEven (b / pow2 (clampedExponent b - 52))"
      by (rule roundHalfEven_mono)
    then have "real_of_int (roundHalfEven (a / pow2 (clampedExponent b - 52)))
                 * pow2 (clampedExponent b - 52)
               \<le> real_of_int (roundHalfEven (b / pow2 (clampedExponent b - 52)))
                 * pow2 (clampedExponent b - 52)"
      by (simp add: mult_right_mono)
    then show ?thesis
      by (simp add: roundPos_clamped True)
  next
    case False
    with le have less: "clampedExponent a < clampedExponent b" by simp
    with clampedExponent_le [OF b] have "clampedExponent a \<noteq> 1024" by linarith
    from roundPos_upper [OF assms(1) this]
    have 1: "roundPos a \<le> pow2 (clampedExponent a + 1)" .
    from less clampedExponent_range [of a] have "clampedExponent b \<noteq> - 1022" by linarith
    from roundPos_lower [OF b this] have 2: "pow2 (clampedExponent b) \<le> roundPos b" .
    from less have "pow2 (clampedExponent a + 1) \<le> pow2 (clampedExponent b)"
      by simp
    with 1 2 show ?thesis by linarith
  qed
qed

text \<open>Rounding is monotone, keeps the sign, and never yields \<open>NaN\<close>.\<close>

lemma round64_zero [simp]: "round64 0 = Fin 0"
  by (simp add: round64_def)

lemma round64_pos:
  "0 < x \<Longrightarrow> round64 x = (if pow2 1024 \<le> roundPos x then PInf else Fin (roundPos x))"
  by (simp add: round64_def)

lemma round64_neg:
  "x < 0 \<Longrightarrow> round64 x = (if pow2 1024 \<le> roundPos (- x) then NInf else Fin (- roundPos (- x)))"
  by (simp add: round64_def)

lemma round64_mono:
  assumes "x \<le> y"
  shows "jle (round64 x) (round64 y)"
proof -
  consider "0 < x" | "x = 0" "y = 0" | "x = 0" "0 < y" | "x < 0" "y < 0" | "x < 0" "y = 0"
    | "x < 0" "0 < y"
    using assms by linarith
  then show ?thesis
  proof cases
    case 1
    with assms have y: "0 < y" by linarith
    from roundPos_mono [OF 1 assms] show ?thesis
      by (simp add: round64_pos 1 y)
  next
    case 2
    then show ?thesis by simp
  next
    case 3
    with roundPos_nonneg [of y] show ?thesis
      by (simp add: round64_pos)
  next
    case 4
    then have "0 < - y" "- y \<le> - x"
      using assms by simp_all
    from roundPos_mono [OF this] show ?thesis
      by (simp add: round64_neg 4)
  next
    case 5
    with roundPos_nonneg [of "- x"] show ?thesis
      by (simp add: round64_neg)
  next
    case 6
    with roundPos_nonneg [of "- x"] roundPos_nonneg [of y] show ?thesis
      by (simp add: round64_neg round64_pos)
  qed
qed

lemma round64_not_NaN [simp]: "round64 x \<noteq> NaN"
  by (simp add: round64_def)

lemma round64_nonneg: "0 \<le> x \<Longrightarrow> round64 x = PInf \<or> (\<exists>r. round64 x = Fin r \<and> 0 \<le> r)"
  using roundPos_nonneg [of x] by (cases "x = 0") (simp_all add: round64_pos)

lemma round64_nonpos: "x \<le> 0 \<Longrightarrow> round64 x = NInf \<or> (\<exists>r. round64 x = Fin r \<and> r \<le> 0)"
  using roundPos_nonneg [of "- x"] by (cases "x = 0") (simp_all add: round64_neg)

text \<open>A number \<open>m * pow2 k\<close> with fewer than 54 bits in \<open>m\<close>, not below the least
  exponent and within the range, is a double: rounding leaves it as it is.\<close>

lemma roundPos_exact:
  assumes m: "0 < m" "m < 2 ^ 53" and k: "- 1074 \<le> k"
  shows "roundPos (of_int m * pow2 k) = of_int m * pow2 k"
proof -
  define a where "a = real_of_int m * pow2 k"
  define e where "e = clampedExponent a"
  have a: "0 < a"
    using m by (simp add: a_def)
  have q: "e - 52 \<le> k"
  proof (cases "e = - 1022")
    case True
    with k show ?thesis by simp
  next
    case False
    from clampedExponent_lower [OF a] False have "pow2 e \<le> a"
      by (simp add: e_def)
    also have "a < pow2 53 * pow2 k"
      unfolding a_def pow2_53 using m by (simp add: mult_strict_right_mono)
    also have "\<dots> = pow2 (53 + k)"
      by (simp add: pow2_add)
    finally show ?thesis by simp
  qed
  define d where "d = nat (k - (e - 52))"
  have "pow2 k = pow2 (int d) * pow2 (e - 52)"
    using q pow2_add [of "int d" "e - 52"] by (simp add: d_def)
  then have pk: "pow2 k = 2 ^ d * pow2 (e - 52)"
    by (simp add: pow2_nat)
  have "a / pow2 (e - 52) = of_int (m * 2 ^ d)"
    by (simp add: a_def pk)
  then have "roundHalfEven (a / pow2 (e - 52)) = m * 2 ^ d"
    by (simp only: roundHalfEven_of_int)
  then have "roundPos a = of_int (m * 2 ^ d) * pow2 (e - 52)"
    by (simp only: roundPos_clamped e_def)
  also have "\<dots> = a"
    by (simp add: a_def pk)
  finally show ?thesis
    by (simp add: a_def)
qed

lemma round64_exact:
  assumes "\<bar>m\<bar> < 2 ^ 53" and "- 1074 \<le> k" and "\<bar>of_int m * pow2 k\<bar> < pow2 1024"
  shows "round64 (of_int m * pow2 k) = Fin (of_int m * pow2 k)"
proof -
  consider "m = 0" | "0 < m" | "m < 0" by linarith
  then show ?thesis
  proof cases
    case 1
    then show ?thesis by simp
  next
    case 2
    with assms have "roundPos (of_int m * pow2 k) = of_int m * pow2 k"
      by (intro roundPos_exact) simp_all
    moreover from 2 have "0 < real_of_int m * pow2 k" by simp
    ultimately show ?thesis
      using assms(3) by (simp add: round64_pos)
  next
    case 3
    with assms have "roundPos (of_int (- m) * pow2 k) = of_int (- m) * pow2 k"
      by (intro roundPos_exact) simp_all
    moreover from 3 have "real_of_int m * pow2 k < 0"
      by (simp add: mult_neg_pos)
    ultimately show ?thesis
      using assms(3) by (simp add: round64_neg)
  qed
qed

lemma pow2_1024_big: "2 ^ 53 \<le> pow2 1024"
proof -
  have "pow2 53 \<le> pow2 1024" by simp
  then show ?thesis by (simp add: pow2_53)
qed

lemma round64_of_int: "\<bar>n\<bar> < 2 ^ 53 \<Longrightarrow> round64 (of_int n) = Fin (of_int n)"
proof -
  assume n: "\<bar>n\<bar> < 2 ^ 53"
  then have "\<bar>real_of_int n\<bar> < 2 ^ 53"
    by (metis of_int_abs of_int_less_numeral_power_cancel_iff)
  with pow2_1024_big have "\<bar>real_of_int n * pow2 0\<bar> < pow2 1024"
    by (simp add: pow2_def)
  from round64_exact [OF n _ this] show ?thesis
    by (simp add: pow2_def)
qed

lemma round64_numeral [simp]:
  "(numeral w :: int) < 2 ^ 53 \<Longrightarrow> round64 (numeral w) = Fin (numeral w)"
  using round64_of_int [of "numeral w"] by simp

lemma round64_neg_numeral [simp]:
  "(numeral w :: int) < 2 ^ 53 \<Longrightarrow> round64 (- numeral w) = Fin (- numeral w)"
  using round64_of_int [of "- numeral w"] by simp

lemma round64_one [simp]: "round64 1 = Fin 1"
  using round64_of_int [of 1] by simp

lemma round64_of_nat: "n < 2 ^ 53 \<Longrightarrow> round64 (real n) = Fin (real n)"
  using round64_of_int [of "int n"] by simp

section \<open>Dates of the predictions\<close>

lemma divmod_12_step:
  fixes k :: int
  shows "k mod 12 = 11 \<Longrightarrow> (k + 1) div 12 = k div 12 + 1 \<and> (k + 1) mod 12 = 0"
    and "k mod 12 \<noteq> 11 \<Longrightarrow> (k + 1) div 12 = k div 12 \<and> (k + 1) mod 12 = k mod 12 + 1"
proof -
  define q where "q = k div 12"
  define r where "r = k mod 12"
  have k: "k = 12 * q + r"
    by (simp add: q_def r_def)
  have r: "0 \<le> r" "r < 12"
    by (simp_all add: r_def)
  {
    assume "r = 11"
    with k have e: "k + 1 = 12 * (q + 1) + 0"
      by simp
    have "(k + 1) div 12 = q + 1"
      by (rule int_div_pos_eq [OF e]) simp_all
    moreover have "(k + 1) mod 12 = 0"
      by (rule int_mod_pos_eq [OF e]) simp_all
    ultimately have "(k + 1) div 12 = q + 1 \<and> (k + 1) mod 12 = 0"
      by simp
  }
  then show "k mod 12 = 11 \<Longrightarrow> (k + 1) div 12 = k div 12 + 1 \<and> (k + 1) mod 12 = 0"
    unfolding q_def r_def by blast
  {
    assume "r \<noteq> 11"
    with r have r': "0 \<le> r + 1" "r + 1 < 12"
      by linarith+
    from k have e: "k + 1 = 12 * q + (r + 1)"
      by simp
    have "(k + 1) div 12 = q"
      by (rule int_div_pos_eq [OF e r'])
    moreover have "(k + 1) mod 12 = r + 1"
      by (rule int_mod_pos_eq [OF e r'])
    ultimately have "(k + 1) div 12 = q \<and> (k + 1) mod 12 = r + 1"
      by simp
  }
  then show "k mod 12 \<noteq> 11 \<Longrightarrow> (k + 1) div 12 = k div 12 \<and> (k + 1) mod 12 = k mod 12 + 1"
    unfolding q_def r_def by blast
qed

lemma nextMonth_ofMonthNumber: "nextMonth (ofMonthNumber k) = ofMonthNumber (k + 1)"
proof (cases "k mod 12 = 11")
  case True
  with divmod_12_step(1) [OF True] show ?thesis
    by (simp add: ofMonthNumber_def)
next
  case False
  with divmod_12_step(2) [OF False] show ?thesis
    by (simp add: ofMonthNumber_def)
qed

lemma monthsAfter_ofMonthNumber:
  "monthsAfter (ofMonthNumber k) n = ofMonthNumber (k + int n)"
proof (induction n)
  case 0
  show ?case by simp
next
  case (Suc n)
  have "k + int (Suc n) = (k + int n) + 1"
    by simp
  with Suc show ?case
    by (simp only: monthsAfter.simps nextMonth_ofMonthNumber)
qed

lemma ofMonthNumber_monthNumber:
  assumes "1 \<le> m" "m \<le> 12"
  shows "ofMonthNumber (monthNumber (y, m)) = (y, m)"
proof -
  have e: "y * 12 + (m - 1) = 12 * y + (m - 1)"
    by simp
  have r: "0 \<le> m - 1" "m - 1 < 12"
    using assms by linarith+
  have "(y * 12 + (m - 1)) div 12 = y"
    by (rule int_div_pos_eq [OF e r])
  moreover have "(y * 12 + (m - 1)) mod 12 = m - 1"
    by (rule int_mod_pos_eq [OF e r])
  ultimately show ?thesis
    by (simp add: ofMonthNumber_def monthNumber_def)
qed

lemma monthNumber_le_notAfter:
  assumes "1 \<le> m" "m \<le> 12" "1 \<le> m'" "m' \<le> 12"
    and "monthNumber (y, m) \<le> monthNumber (y', m')"
  shows "notAfter (y, m) (y', m')"
proof -
  from assms(5) have "y * 12 + m \<le> y' * 12 + m'"
    by (simp add: monthNumber_def)
  with assms(1-4) have "y < y' \<or> (y = y' \<and> m \<le> m')"
    by linarith
  then show ?thesis by simp
qed


lemma maxTime_Some:
  "ks \<noteq> [] \<Longrightarrow> \<exists>k. maxTime (map Some ks) = Some k \<and> k \<in> set ks \<and> (\<forall>j\<in>set ks. j \<le> k)"
proof (induction ks)
  case Nil
  then show ?case by simp
next
  case (Cons a ks)
  show ?case
  proof (cases ks)
    case Nil
    then show ?thesis by simp
  next
    case (Cons b ls)
    with Cons.IH obtain k where k: "maxTime (map Some ks) = Some k" "k \<in> set ks" "\<forall>j\<in>set ks. j \<le> k"
      by auto
    have "maxTime (map Some (a # ks)) = Some (max a k)"
      using k(1) Cons by simp
    moreover have "max a k \<in> set (a # ks)"
      using k(2) by (auto simp: max_def)
    moreover have "\<forall>j\<in>set (a # ks). j \<le> max a k"
      using k(3) by auto
    ultimately show ?thesis by blast
  qed
qed

lemma validPointE:
  assumes "validPoint p"
  obtains y m where "year p = Some y" "month p = Some m" "1900 \<le> y" "1 \<le> m" "m \<le> 12"
proof (cases "year p")
  case None
  with assms show ?thesis by (simp add: validPoint_def yearMonth_def)
next
  case (Some y)
  note y = this
  show ?thesis
  proof (cases "month p")
    case None
    with assms y show ?thesis by (simp add: validPoint_def yearMonth_def)
  next
    case (Some m)
    with assms y that show ?thesis by (simp add: validPoint_def yearMonth_def)
  qed
qed


lemma newDate_valid:
  assumes "validPoint p" and "withinDateRange p h"
  shows "\<exists>ym. yearMonth p = Some ym \<and> 1 \<le> snd ym \<and> snd ym \<le> 12 \<and>
     validMonth (monthNumber ym) \<and> monthNumber ym + h \<le> 275760 * 12 + 8 \<and>
     newDate (year p) (map_option (\<lambda>m. m - 1) (month p)) = Some (monthNumber ym)"
proof -
  from assms(1) obtain y m where
    ym: "year p = Some y" "month p = Some m" "1900 \<le> y" "1 \<le> m" "m \<le> 12"
    by (rule validPointE)
  then have "yearMonth p = Some (y, m)"
    by (simp add: yearMonth_def)
  with assms(2) have "validMonth (monthNumber (y, m))" "monthNumber (y, m) + h \<le> 275760 * 12 + 8"
    by (simp_all add: withinDateRange_def)
  with ym show ?thesis
    by (simp add: yearMonth_def newDate_def monthNumber_def timeClip_def)
qed

lemma lastDateOf_short:
  "length hist \<le> argumentLimit E \<Longrightarrow>
   lastDateOf E hist
     = Inr (maxTime (map (\<lambda>item. newDate (year item) (map_option (\<lambda>m. m - 1) (month item))) hist))"
  by (simp add: lastDateOf_def maxDate_def)

lemma lastDateOf_long:
  "argumentLimit E < length hist \<Longrightarrow>
   lastDateOf E hist = Inl (RangeError ''Maximum call stack size exceeded'')"
  by (simp add: lastDateOf_def maxDate_def)

lemma lastDateOf_Inl:
  assumes "lastDateOf E hist = Inl e"
  shows "65535 < length hist" and "e = RangeError ''Maximum call stack size exceeded''"
  using assms by (simp_all add: lastDateOf_def maxDate_def argumentLimit_def split: if_splits)

lemma lastDateOf_random [simp]: "lastDateOf (E\<lparr>mathRandom := f\<rparr>) hist = lastDateOf E hist"
  by (simp add: lastDateOf_def maxDate_def argumentLimit_def)

lemma lastDateOf_valid:
  assumes ne: "hist \<noteq> []" and valid: "\<forall>p\<in>set hist. validPoint p \<and> withinDateRange p h"
    and short: "length hist \<le> argumentLimit E"
  shows "\<exists>ym. Some ym \<in> yearMonth ` set hist \<and> 1 \<le> snd ym \<and> snd ym \<le> 12 \<and>
           validMonth (monthNumber ym) \<and> monthNumber ym + h \<le> 275760 * 12 + 8 \<and>
           lastDateOf E hist = Inr (Some (monthNumber ym)) \<and>
           (\<forall>p\<in>set hist. \<exists>q. yearMonth p = Some q \<and> notAfter q ym)"
proof -
  define num where "num p = monthNumber (the (yearMonth p))" for p
  have dates: "map (\<lambda>item. newDate (year item) (map_option (\<lambda>m. m - 1) (month item))) hist
                 = map Some (map num hist)"
  proof (simp, intro ballI)
    fix p assume "p \<in> set hist"
    with valid have "validPoint p" "withinDateRange p h" by blast+
    from newDate_valid [OF this]
    show "newDate (year p) (map_option (\<lambda>m. m - 1) (month p)) = Some (num p)"
      by (auto simp: num_def)
  qed
  from ne have "map num hist \<noteq> []" by simp
  from maxTime_Some [OF this] obtain k where
    k: "maxTime (map Some (map num hist)) = Some k" "k \<in> set (map num hist)"
       "\<forall>j\<in>set (map num hist). j \<le> k"
    by blast
  from k(2) obtain p where p: "p \<in> set hist" "k = num p"
    by auto
  from p(1) valid have "validPoint p" "withinDateRange p h" by blast+
  from newDate_valid [OF this] obtain ym where
    ym: "yearMonth p = Some ym" "1 \<le> snd ym" "snd ym \<le> 12"
        "validMonth (monthNumber ym)" "monthNumber ym + h \<le> 275760 * 12 + 8"
    by blast
  have last: "lastDateOf E hist = Inr (Some (monthNumber ym))"
    using k(1) p(2) ym(1) by (simp add: lastDateOf_short [OF short] dates num_def)
  have others: "\<exists>q. yearMonth p' = Some q \<and> notAfter q ym" if "p' \<in> set hist" for p'
  proof -
    from that valid have "validPoint p'" "withinDateRange p' h" by blast+
    from newDate_valid [OF this] obtain q where
      q: "yearMonth p' = Some q" "1 \<le> snd q" "snd q \<le> 12"
      by blast
    from that k(3) have "num p' \<le> k" by simp
    with p(2) q(1) ym(1) have "monthNumber q \<le> monthNumber ym"
      by (simp add: num_def)
    with q(2,3) ym(2,3) have "notAfter q ym"
      using monthNumber_le_notAfter [of "snd q" "snd ym" "fst q" "fst ym"] by simp
    with q(1) show ?thesis by blast
  qed
  from p(1) ym(1) have "Some ym \<in> yearMonth ` set hist"
    by (metis imageI)
  with ym(2-5) last others show ?thesis by blast
qed

lemma future_yearMonth:
  assumes "1 \<le> snd ym" "snd ym \<le> 12"
    and "validMonth (monthNumber ym)" and "monthNumber ym + h \<le> 275760 * 12 + 8"
    and "i < nat h"
    and "year P = getFullYear (plusMonths (Some (monthNumber ym)) (1 + int i))"
    and "month P = getMonth1 (plusMonths (Some (monthNumber ym)) (1 + int i))"
  shows "yearMonth P = Some (monthsAfter ym (Suc i))"
proof -
  have "ofMonthNumber (monthNumber ym) = ym"
    using ofMonthNumber_monthNumber [OF assms(1,2), of "fst ym"] by simp
  then have "monthsAfter ym (Suc i) = ofMonthNumber (monthNumber ym + int (Suc i))"
    using monthsAfter_ofMonthNumber [of "monthNumber ym" "Suc i"] by simp
  moreover have "monthNumber ym + int (Suc i) = monthNumber ym + (1 + int i)"
    by simp
  ultimately have after: "monthsAfter ym (Suc i) = ofMonthNumber (monthNumber ym + (1 + int i))"
    by simp
  from assms(5) have "1 + int i \<le> h" by linarith
  with assms(3,4) have "validMonth (monthNumber ym + (1 + int i))"
    unfolding validMonth_def by linarith
  then have "plusMonths (Some (monthNumber ym)) (1 + int i) = Some (monthNumber ym + (1 + int i))"
    by (simp add: plusMonths_def timeClip_def)
  with assms(6,7) after show ?thesis
    by (simp add: yearMonth_def getFullYear_def getMonth1_def ofMonthNumber_def)
qed

lemma nth_from_one: "i < nat h \<Longrightarrow> [1..h] ! i = 1 + int i"
  by (simp add: nth_upto)

text \<open>What the three generators return: the error of the spread, or one prediction for
  each month of the horizon.\<close>

lemma seasonalForecast_Inl: "lastDateOf E hist = Inl e \<Longrightarrow> seasonalForecast E hist h = Inl e"
  by (simp add: seasonalForecast_def Let_def)

lemma seasonalForecast_Inr:
  assumes "lastDateOf E hist = Inr d"
  shows "\<exists>preds. seasonalForecast E hist h = Inr preds \<and> length preds = nat h \<and>
     (\<forall>i<nat h.
        year (preds ! i) = getFullYear (plusMonths d (1 + int i)) \<and>
        month (preds ! i) = getMonth1 (plusMonths d (1 + int i)) \<and>
        source (preds ! i) = ''ML Prediction'' \<and>
        quality (preds ! i) = Some ''Forecasted'')"
  using assms by (simp add: seasonalForecast_def seasonalPrediction_def Let_def nth_from_one)

lemma linearPredictions_Inl:
  "lastDateOf E hist = Inl e \<Longrightarrow> generateLinearPredictions E hist h = Inl e"
  by (simp add: generateLinearPredictions_def Let_def)

lemma linearPredictions_Inr:
  assumes "lastDateOf E hist = Inr d"
  shows "\<exists>preds. generateLinearPredictions E hist h = Inr preds \<and> length preds = nat h \<and>
     (\<forall>i<nat h.
        year (preds ! i) = getFullYear (plusMonths d (1 + int i)) \<and>
        month (preds ! i) = getMonth1 (plusMonths d (1 + int i)))"
  using assms
  by (simp add: generateLinearPredictions_def linearPrediction_def Let_def nth_from_one)

lemma simpleTrend_Inl:
  "lastDateOf E hist = Inl e \<Longrightarrow> generateSimpleTrendPredictions E hist h = Inl e"
  by (auto simp: generateSimpleTrendPredictions_def Let_def dest: lastDateOf_Inl(1))

lemma simpleTrend_Inr:
  assumes "lastDateOf E hist = Inr d" and "hist \<noteq> []"
  shows "\<exists>preds. generateSimpleTrendPredictions E hist h = Inr preds \<and> length preds = nat h \<and>
     (\<forall>i<nat h.
        year (preds ! i) = getFullYear (plusMonths d (1 + int i)) \<and>
        month (preds ! i) = getMonth1 (plusMonths d (1 + int i)) \<and>
        price (preds ! i)
          = jround (sumNums (map price (sliceLast 12 hist))
                      / Fin (real (length (sliceLast 12 hist)))
                    * jpow E (Fin 1 + literal (2 / 100) / Fin 12) (Suc i) * Fin 100) / Fin 100)"
  using assms
  by (simp add: generateSimpleTrendPredictions_def simplePrediction_def Let_def nth_from_one
      nat_add_distrib)

lemma concat_map_nthOpt:
  "n \<le> length sp \<Longrightarrow>
   concat (map (\<lambda>i. case nthOpt sp i of None \<Rightarrow> [] | Some p \<Rightarrow> [f i p]) [0..<n])
     = map (\<lambda>i. f i (sp ! i)) [0..<n]"
  by (induction n) (simp_all add: nthOpt_def)


lemma ensembleTry_Inl_date:
  "lastDateOf E hist = Inl e \<Longrightarrow> ensembleTry E hist h = Inl e"
  by (simp add: ensembleTry_def seasonalForecast_Inl)

lemma ensembleTry_Inr:
  assumes "ensembleTry E hist h = Inr preds"
  shows "\<exists>sp. seasonalForecast E hist h = Inr sp \<and> length preds = nat h \<and>
     (\<forall>i<nat h. year (preds ! i) = year (sp ! i) \<and> month (preds ! i) = month (sp ! i) \<and>
        source (preds ! i) = ''Ensemble ML Prediction'')"
proof -
  obtain sp where sp: "seasonalForecast E hist h = Inr sp"
    using assms by (auto simp: ensembleTry_def split: sum.splits)
  obtain af where af: "ensembleArimaForecasts (map price hist) h = Inr af"
    using assms sp by (auto simp: ensembleTry_def Let_def split: sum.splits)
  obtain d where d: "lastDateOf E hist = Inr d"
    using sp by (cases "lastDateOf E hist") (simp_all add: seasonalForecast_Inl)
  from seasonalForecast_Inr [OF d, of h] sp have "nat h \<le> length sp"
    by auto
  then have preds: "preds = map (\<lambda>i. (sp ! i)\<lparr>
                       price := jround (ensemblePrice E sp af (map price hist) i * Fin 100) / Fin 100,
                       source := ''Ensemble ML Prediction'',
                       quality := Some ''AI Forecasted''\<rparr>) [0..<nat h]"
    using assms af sp by (simp add: ensembleTry_def Let_def concat_map_nthOpt)
  have "length preds = nat h"
    by (simp add: preds)
  moreover have "\<forall>i<nat h. year (preds ! i) = year (sp ! i) \<and> month (preds ! i) = month (sp ! i) \<and>
        source (preds ! i) = ''Ensemble ML Prediction''"
    by (simp add: preds)
  ultimately show ?thesis
    using sp by blast
qed

lemma ensembleForecast_Inl:
  "lastDateOf E hist = Inl e \<Longrightarrow> ensembleForecast E hist h = Inl e"
  by (simp add: ensembleForecast_def ensembleTry_Inl_date seasonalForecast_Inl)

lemma ensembleForecast_result:
  assumes d: "lastDateOf E hist = Inr d"
  shows "\<exists>preds. ensembleForecast E hist h = Inr preds \<and> length preds = nat h \<and>
     (\<forall>i<nat h.
        year (preds ! i) = getFullYear (plusMonths d (1 + int i)) \<and>
        month (preds ! i) = getMonth1 (plusMonths d (1 + int i)))"
proof (cases "ensembleTry E hist h")
  case (Inl e)
  define E' where "E' = E\<lparr>mathRandom := \<lambda>k. mathRandom E (k + nat h)\<rparr>"
  have "lastDateOf E' hist = Inr d"
    using d by (simp add: E'_def)
  from seasonalForecast_Inr [OF this, of h] obtain sp where
    sp: "seasonalForecast E' hist h = Inr sp" "length sp = nat h"
        "\<forall>i<nat h.
           year (sp ! i) = getFullYear (plusMonths d (1 + int i)) \<and>
           month (sp ! i) = getMonth1 (plusMonths d (1 + int i))"
    by blast
  from Inl sp(1) have "ensembleForecast E hist h = Inr sp"
    by (simp add: ensembleForecast_def E'_def)
  with sp(2,3) show ?thesis by blast
next
  case (Inr preds)
  then have run: "ensembleForecast E hist h = Inr preds"
    by (simp add: ensembleForecast_def)
  from ensembleTry_Inr [OF Inr] obtain sp where
    sp: "seasonalForecast E hist h = Inr sp" "length preds = nat h"
        "\<forall>i<nat h. year (preds ! i) = year (sp ! i) \<and> month (preds ! i) = month (sp ! i)"
    by blast
  from seasonalForecast_Inr [OF d, of h] sp(1) have
    "\<forall>i<nat h.
       year (sp ! i) = getFullYear (plusMonths d (1 + int i)) \<and>
       month (sp ! i) = getMonth1 (plusMonths d (1 + int i))"
    by auto
  with sp(3) have "\<forall>i<nat h.
        year (preds ! i) = getFullYear (plusMonths d (1 + int i)) \<and>
        month (preds ! i) = getMonth1 (plusMonths d (1 + int i))"
    by simp
  with run sp(2) show ?thesis by blast
qed

lemma indexed_length: "length (indexed xs) = length xs"
  by (simp add: indexed_def)

lemma indexed_nth: "i < length xs \<Longrightarrow> indexed xs ! i = (i, xs ! i)"
  by (simp add: indexed_def)

lemma enhance_predictions:
  shows "length (predictions (enhance hist preds m ms h)) = length preds"
    and "i < length preds \<Longrightarrow> year (predictions (enhance hist preds m ms h) ! i) = year (preds ! i)"
    and "i < length preds \<Longrightarrow> month (predictions (enhance hist preds m ms h) ! i) = month (preds ! i)"
  by (simp_all add: enhance_def Let_def indexed_length indexed_nth)


lemma generatePredictionsTry_dates:
  assumes "12 \<le> length hist" and d: "lastDateOf E hist = Inr d"
  shows "\<exists>r. generatePredictionsTry E hist h mt = Inr r \<and> length (predictions r) = nat h \<and>
     (\<forall>i<nat h.
        year (predictions r ! i) = getFullYear (plusMonths d (1 + int i)) \<and>
        month (predictions r ! i) = getMonth1 (plusMonths d (1 + int i)))"
proof -
  from ensembleForecast_result [OF d, of h] obtain ep where
    ep: "ensembleForecast E hist h = Inr ep" "length ep = nat h"
        "\<forall>i<nat h.
           year (ep ! i) = getFullYear (plusMonths d (1 + int i)) \<and>
           month (ep ! i) = getMonth1 (plusMonths d (1 + int i))"
    by blast
  from seasonalForecast_Inr [OF d, of h] obtain sp where
    sp: "seasonalForecast E hist h = Inr sp" "length sp = nat h"
        "\<forall>i<nat h.
           year (sp ! i) = getFullYear (plusMonths d (1 + int i)) \<and>
           month (sp ! i) = getMonth1 (plusMonths d (1 + int i))"
    by blast
  from linearPredictions_Inr [OF d, of h] obtain lp where
    lp: "generateLinearPredictions E hist h = Inr lp" "length lp = nat h"
        "\<forall>i<nat h.
           year (lp ! i) = getFullYear (plusMonths d (1 + int i)) \<and>
           month (lp ! i) = getMonth1 (plusMonths d (1 + int i))"
    by blast
  show ?thesis
  proof (cases mt)
    case Ensemble
    with assms ep show ?thesis
      by (simp add: generatePredictionsTry_def enhance_predictions)
  next
    case Seasonal
    with assms sp show ?thesis
      by (simp add: generatePredictionsTry_def enhance_predictions)
  next
    case Linear
    with assms lp show ?thesis
      by (simp add: generatePredictionsTry_def enhance_predictions)
  next
    case Unlisted
    with assms ep show ?thesis
      by (simp add: generatePredictionsTry_def enhance_predictions)
  qed
qed

lemma generatePredictionsTry_Inl:
  assumes "lastDateOf E hist = Inl e"
  shows "generatePredictionsTry E hist h mt = Inl e"
proof -
  from lastDateOf_Inl(1) [OF assms] have "\<not> length hist < 12" by simp
  with assms show ?thesis
    by (cases mt)
       (simp_all add: generatePredictionsTry_def ensembleForecast_Inl seasonalForecast_Inl
          linearPredictions_Inl)
qed

text \<open>The whole service on a series that is too long for the spread: the \<^verbatim>\<open>try\<close> block
  throws, and so does the fallback.\<close>

lemma generatePredictions_too_long:
  assumes "argumentLimit E < length hist"
  shows "generatePredictions E hist h mt = Inl (RangeError ''Maximum call stack size exceeded'')"
proof -
  from lastDateOf_long [OF assms]
  have d: "lastDateOf E hist = Inl (RangeError ''Maximum call stack size exceeded'')" .
  from generatePredictionsTry_Inl [OF d] simpleTrend_Inl [OF d] show ?thesis
    by (simp add: generatePredictions_def fallbackResult_def)
qed

text \<open>On a series within the limit the service returns a result.\<close>

lemma generatePredictions_returns:
  assumes "length hist \<le> argumentLimit E"
  shows "\<exists>result. generatePredictions E hist h mt = Inr result"
proof (cases "generatePredictionsTry E hist h mt")
  case (Inr r)
  then show ?thesis
    by (simp add: generatePredictions_def)
next
  case (Inl e)
  from lastDateOf_short [OF assms] obtain d where d: "lastDateOf E hist = Inr d"
    by blast
  show ?thesis
  proof (cases "hist = []")
    case True
    with Inl show ?thesis
      by (simp add: generatePredictions_def fallbackResult_def generateSimpleTrendPredictions_def)
  next
    case False
    from simpleTrend_Inr [OF d False, of h] Inl show ?thesis
      by (auto simp: generatePredictions_def fallbackResult_def)
  qed
qed

lemma sampleYear_valid: "\<forall>p\<in>set sampleYear. validPoint p"
  by (simp add: sampleYear_def mkPoint_def validPoint_def yearMonth_def)

section \<open>The service and its fallback\<close>

text \<open>
  C1. \<open>generatePredictions\<close> does not return a result for every series. The \<^verbatim>\<open>catch\<close>
  block calls \<open>generateSimpleTrendPredictions\<close> outside any \<^verbatim>\<open>try\<close>, and that function
  repeats the spread \<^verbatim>\<open>Math.max(...historicalData.map(...))\<close> on which the \<^verbatim>\<open>try\<close> block
  has just failed: on the monthly series of 200000 points, with an engine that takes 125000
  arguments, the \<^verbatim>\<open>RangeError\<close> leaves \<open>generatePredictions\<close>.
\<close>

theorem generatePredictions_long_series:
  "generatePredictions sampleEngine longSeries 12 Ensemble
     = Inl (RangeError ''Maximum call stack size exceeded'')"
proof -
  have "argumentLimit sampleEngine < length longSeries"
    by (simp add: argumentLimit_def sampleEngine_def longSeries_def)
  then show ?thesis
    by (rule generatePredictions_too_long)
qed

text \<open>
  C10. For the empty series and a horizon \<open>h > 0\<close>, \<open>generatePredictions\<close> returns the
  fallback result with no predictions at all (so not \<open>h\<close> of them), while the metadata
  reports the horizon \<open>h\<close> and 0 data points.
\<close>

theorem generatePredictions_empty:
  "0 < h \<Longrightarrow>
   \<exists>result. generatePredictions E [] h mt = Inr result \<and>
     predictions result = [] \<and>
     length (predictions result) \<noteq> nat h \<and>
     forecastHorizon (metadata result) = h \<and>
     dataPoints (metadata result) = 0 \<and>
     model result = ''Simple Trend Model (Fallback)''"
  by (simp add: generatePredictions_def generatePredictionsTry_def fallbackResult_def
      generateSimpleTrendPredictions_def)

theorem generatePredictions_empty_witness:
  "\<exists>result. generatePredictions sampleEngine [] 12 Ensemble = Inr result \<and>
     predictions result = [] \<and>
     forecastHorizon (metadata result) = 12 \<and>
     dataPoints (metadata result) = 0"
  using generatePredictions_empty [of 12 sampleEngine Ensemble] by auto

section \<open>Validation\<close>

text \<open>
  C3. \<open>validateDataForPrediction\<close> is a total function of the length alone. A series of
  length 0 is invalid with the no-data message; length 5 is invalid with the
  insufficient-data message; lengths 6 and 11 are valid with the limited-data message and
  recommendations; length 12 is valid with the sufficient-data message and no
  recommendations.
\<close>

theorem validate_boundaries:
  "(length d = 0 \<longrightarrow>
      \<not> isValid (validateDataForPrediction d) \<and>
      message (validateDataForPrediction d) = ''No historical data available'') \<and>
   (length d = 5 \<longrightarrow>
      \<not> isValid (validateDataForPrediction d) \<and>
      message (validateDataForPrediction d) = ''Insufficient data for reliable predictions'') \<and>
   (length d = 6 \<or> length d = 11 \<longrightarrow>
      isValid (validateDataForPrediction d) \<and>
      message (validateDataForPrediction d)
        = ''Limited data available - predictions may be less accurate'' \<and>
      recommendations (validateDataForPrediction d) \<noteq> None) \<and>
   (length d = 12 \<longrightarrow>
      isValid (validateDataForPrediction d) \<and>
      message (validateDataForPrediction d)
        = ''Sufficient data available for accurate predictions'' \<and>
      recommendations (validateDataForPrediction d) = None)"
  by (simp add: validateDataForPrediction_def)

theorem validate_boundaries_witness:
  "message (validateDataForPrediction []) = ''No historical data available'' \<and>
   message (validateDataForPrediction (replicate 5 (mkPoint 2023 1 160)))
     = ''Insufficient data for reliable predictions'' \<and>
   isValid (validateDataForPrediction (replicate 6 (mkPoint 2023 1 160))) \<and>
   isValid (validateDataForPrediction (replicate 11 (mkPoint 2023 1 160))) \<and>
   recommendations (validateDataForPrediction (replicate 12 (mkPoint 2023 1 160))) = None"
  using validate_boundaries [of "[]"]
        validate_boundaries [of "replicate 5 (mkPoint 2023 1 160)"]
        validate_boundaries [of "replicate 6 (mkPoint 2023 1 160)"]
        validate_boundaries [of "replicate 11 (mkPoint 2023 1 160)"]
        validate_boundaries [of "replicate 12 (mkPoint 2023 1 160)"]
  by simp


section \<open>Horizon and dates\<close>

text \<open>
  C2, within the limits of the platform. For a series of at least twelve points and at
  most as many as a call takes arguments, whose points satisfy the data model and are dated
  so that \<open>h\<close> months later is still a valid \<^verbatim>\<open>Date\<close>, and a horizon \<open>h > 0\<close>,
  \<open>generatePredictions\<close> returns exactly \<open>h\<close> predictions, for every model type, and
  prediction \<open>i\<close> (from 0) carries the (year, month) that lies \<open>i + 1\<close> months after the
  latest (year, month) of the series.
\<close>

theorem generatePredictions_horizon:
  assumes "12 \<le> length hist" and "length hist \<le> argumentLimit E" and "0 < h"
    and "\<forall>p\<in>set hist. validPoint p \<and> withinDateRange p h"
  shows "\<exists>result. generatePredictions E hist h mt = Inr result \<and>
     int (length (predictions result)) = h \<and>
     (\<exists>latest. Some latest \<in> yearMonth ` set hist \<and>
        (\<forall>p\<in>set hist. \<exists>q. yearMonth p = Some q \<and> notAfter q latest) \<and>
        (\<forall>i<nat h. yearMonth (predictions result ! i) = Some (monthsAfter latest (Suc i))))"
proof -
  from assms(1) have "hist \<noteq> []" by auto
  from lastDateOf_valid [OF this assms(4,2)] obtain latest where
    latest: "Some latest \<in> yearMonth ` set hist" "1 \<le> snd latest" "snd latest \<le> 12"
            "validMonth (monthNumber latest)" "monthNumber latest + h \<le> 275760 * 12 + 8"
            "lastDateOf E hist = Inr (Some (monthNumber latest))"
            "\<forall>p\<in>set hist. \<exists>q. yearMonth p = Some q \<and> notAfter q latest"
    by blast
  from generatePredictionsTry_dates [OF assms(1) latest(6), of h mt] obtain r where
    r: "generatePredictionsTry E hist h mt = Inr r" "length (predictions r) = nat h"
       "\<forall>i<nat h.
          year (predictions r ! i)
            = getFullYear (plusMonths (Some (monthNumber latest)) (1 + int i)) \<and>
          month (predictions r ! i)
            = getMonth1 (plusMonths (Some (monthNumber latest)) (1 + int i))"
    by blast
  have "yearMonth (predictions r ! i) = Some (monthsAfter latest (Suc i))" if "i < nat h" for i
    using future_yearMonth [OF latest(2-5) that, of "predictions r ! i"] r(3) that
    by simp
  moreover have "generatePredictions E hist h mt = Inr r"
    using r(1) by (simp add: generatePredictions_def)
  moreover have "int (length (predictions r)) = h"
    using r(2) assms(3) by simp
  ultimately show ?thesis
    using latest(1,7) by blast
qed

lemma sampleYear_dated: "\<forall>p\<in>set sampleYear. validPoint p \<and> withinDateRange p 3"
  by (simp add: sampleYear_def mkPoint_def validPoint_def yearMonth_def withinDateRange_def
      validMonth_def monthNumber_def)

lemma sampleYear_short: "length sampleYear \<le> argumentLimit sampleEngine"
  by (simp add: sampleYear_def argumentLimit_def)

lemma sampleYear_latest:
  assumes "Some latest \<in> yearMonth ` set sampleYear"
    and "\<forall>p\<in>set sampleYear. \<exists>q. yearMonth p = Some q \<and> notAfter q latest"
  shows "latest = (2023, 12)"
proof -
  from assms(2) have "notAfter (2023, 12) latest"
    by (simp add: sampleYear_def mkPoint_def yearMonth_def)
  moreover from assms(1) have "fst latest = 2023 \<and> snd latest \<le> 12"
    by (auto simp: sampleYear_def mkPoint_def yearMonth_def)
  ultimately show ?thesis
    by (cases latest) auto
qed

theorem generatePredictions_horizon_witness:
  "\<exists>result. generatePredictions sampleEngine sampleYear 3 Ensemble = Inr result \<and>
     length (predictions result) = 3 \<and>
     yearMonth (predictions result ! 0) = Some (2024, 1) \<and>
     yearMonth (predictions result ! 1) = Some (2024, 2)"
proof -
  have len: "12 \<le> length sampleYear"
    by (simp add: sampleYear_def)
  have pos: "(0::int) < 3"
    by simp
  from generatePredictions_horizon [OF len sampleYear_short pos sampleYear_dated, of Ensemble]
  obtain result latest where
    r: "generatePredictions sampleEngine sampleYear 3 Ensemble = Inr result"
       "int (length (predictions result)) = 3"
    and l: "Some latest \<in> yearMonth ` set sampleYear"
       "\<forall>p\<in>set sampleYear. \<exists>q. yearMonth p = Some q \<and> notAfter q latest"
    and d: "\<forall>i<nat 3. yearMonth (predictions result ! i) = Some (monthsAfter latest (Suc i))"
    by blast
  from l have latest: "latest = (2023, 12)"
    by (rule sampleYear_latest)
  from d have "yearMonth (predictions result ! 0) = Some (monthsAfter latest (Suc 0))"
    and "yearMonth (predictions result ! 1) = Some (monthsAfter latest (Suc 1))"
    by simp_all
  with latest have "yearMonth (predictions result ! 0) = Some (2024, 1)"
    and "yearMonth (predictions result ! 1) = Some (2024, 2)"
    by (simp_all add: numeral_2_eq_2)
  with r show ?thesis by simp
qed

text \<open>
  C2 as stated fails at the end of the range of \<^verbatim>\<open>Date\<close>: for the twelve months up to
  September 275760 and the horizon 1, the prediction is dated with the invalid date, so it
  has no year and no month.
\<close>

lemma lateYear_lastDate: "lastDateOf sampleEngine lateYear = Inr (Some (275760 * 12 + 8))"
  by (simp add: lastDateOf_def maxDate_def argumentLimit_def sampleEngine_def lateYear_def
      mkPoint_def newDate_def timeClip_def validMonth_def)

theorem generatePredictions_date_counterexample:
  "map_sum id (map yearMonth \<circ> predictions) (generatePredictions sampleEngine lateYear 1 Ensemble)
     = Inr [None]"
proof -
  have len: "12 \<le> length lateYear"
    by (simp add: lateYear_def)
  from generatePredictionsTry_dates [OF len lateYear_lastDate, of 1 Ensemble] obtain r where
    r: "generatePredictionsTry sampleEngine lateYear 1 Ensemble = Inr r"
       "length (predictions r) = 1"
       "year (predictions r ! 0) = getFullYear (plusMonths (Some (275760 * 12 + 8)) 1)"
    by auto
  from r(3) have "yearMonth (predictions r ! 0) = None"
    by (simp add: yearMonth_def getFullYear_def plusMonths_def timeClip_def validMonth_def)
  moreover from r(2) have "predictions r = [predictions r ! 0]"
    by (cases "predictions r") simp_all
  ultimately have "map yearMonth (predictions r) = [None]"
    by (metis list.simps(8,9))
  with r(1) show ?thesis
    by (simp add: generatePredictions_def)
qed

text \<open>
  C7, as the code has it. For a series that is not empty, not longer than a call takes
  arguments, and whose points satisfy the data model and are dated so that \<open>h\<close> months later
  is still a valid \<^verbatim>\<open>Date\<close>, \<open>seasonalForecast\<close> returns exactly \<open>h\<close> points (none for a
  negative \<open>h\<close>); point \<open>i\<close> (from 0) lies \<open>i + 1\<close> months after the latest (year, month) of
  the series, its source is "ML Prediction" and its quality is "Forecasted".
\<close>

theorem seasonalForecast_points:
  assumes "hist \<noteq> []" and "length hist \<le> argumentLimit E"
    and "\<forall>p\<in>set hist. validPoint p \<and> withinDateRange p h"
  shows "\<exists>preds. seasonalForecast E hist h = Inr preds \<and>
     int (length preds) = max 0 h \<and>
     (\<exists>latest. Some latest \<in> yearMonth ` set hist \<and>
        (\<forall>p\<in>set hist. \<exists>q. yearMonth p = Some q \<and> notAfter q latest) \<and>
        (\<forall>i<nat h.
           yearMonth (preds ! i) = Some (monthsAfter latest (Suc i)) \<and>
           source (preds ! i) = ''ML Prediction'' \<and>
           quality (preds ! i) = Some ''Forecasted''))"
proof -
  from lastDateOf_valid [OF assms(1,3,2)] obtain latest where
    latest: "Some latest \<in> yearMonth ` set hist" "1 \<le> snd latest" "snd latest \<le> 12"
            "validMonth (monthNumber latest)" "monthNumber latest + h \<le> 275760 * 12 + 8"
            "lastDateOf E hist = Inr (Some (monthNumber latest))"
            "\<forall>p\<in>set hist. \<exists>q. yearMonth p = Some q \<and> notAfter q latest"
    by blast
  from seasonalForecast_Inr [OF latest(6), of h] obtain preds where
    preds: "seasonalForecast E hist h = Inr preds" "length preds = nat h"
       "\<forall>i<nat h.
          year (preds ! i) = getFullYear (plusMonths (Some (monthNumber latest)) (1 + int i)) \<and>
          month (preds ! i) = getMonth1 (plusMonths (Some (monthNumber latest)) (1 + int i)) \<and>
          source (preds ! i) = ''ML Prediction'' \<and>
          quality (preds ! i) = Some ''Forecasted''"
    by blast
  have "yearMonth (preds ! i) = Some (monthsAfter latest (Suc i))" if "i < nat h" for i
    using future_yearMonth [OF latest(2-5) that, of "preds ! i"] preds(3) that
    by simp
  with preds(3) have each: "\<forall>i<nat h.
           yearMonth (preds ! i) = Some (monthsAfter latest (Suc i)) \<and>
           source (preds ! i) = ''ML Prediction'' \<and>
           quality (preds ! i) = Some ''Forecasted''"
    by simp
  have "int (length preds) = max 0 h"
    using preds(2) by simp
  with each preds(1) latest(1,7) show ?thesis
    by blast
qed

theorem seasonalForecast_points_witness:
  "\<exists>preds. seasonalForecast sampleEngine sampleYear 3 = Inr preds \<and>
     length preds = 3 \<and>
     yearMonth (preds ! 0) = Some (2024, 1) \<and>
     source (preds ! 0) = ''ML Prediction'' \<and>
     quality (preds ! 0) = Some ''Forecasted''"
proof -
  have ne: "sampleYear \<noteq> []"
    by (simp add: sampleYear_def)
  from seasonalForecast_points [OF ne sampleYear_short sampleYear_dated]
  obtain preds latest where
    r: "seasonalForecast sampleEngine sampleYear 3 = Inr preds" "int (length preds) = max 0 3"
    and l: "Some latest \<in> yearMonth ` set sampleYear"
       "\<forall>p\<in>set sampleYear. \<exists>q. yearMonth p = Some q \<and> notAfter q latest"
    and d: "\<forall>i<nat 3.
           yearMonth (preds ! i) = Some (monthsAfter latest (Suc i)) \<and>
           source (preds ! i) = ''ML Prediction'' \<and>
           quality (preds ! i) = Some ''Forecasted''"
    by blast
  from l have latest: "latest = (2023, 12)"
    by (rule sampleYear_latest)
  from d have "yearMonth (preds ! 0) = Some (monthsAfter latest (Suc 0))"
    and "source (preds ! 0) = ''ML Prediction''"
    and "quality (preds ! 0) = Some ''Forecasted''"
    by simp_all
  with latest r show ?thesis
    by simp
qed

text \<open>C7 as stated fails on any forecast: the source label is not "Seasonal".\<close>

theorem seasonalForecast_source_counterexample:
  "map_sum id (map source) (seasonalForecast sampleEngine sampleYear 1)
     = Inr [''ML Prediction'']"
  by (simp add: seasonalForecast_def seasonalPrediction_def Let_def lastDateOf_def maxDate_def
      argumentLimit_def sampleEngine_def sampleYear_def)

section \<open>The ensemble when the autoregressive forecaster fails\<close>










end
